theory Spec2Isabelle
  imports Main
begin

section \<open>Strings of the runtime\<close>

text \<open>
  A string of the source is a sequence of UTF-16 code units; \<open>length\<close> is the
  source's \<open>.length\<close>.  A literal is written \<open>js ''...''\<close>, a code unit beyond
  ASCII by its number (the em dash is 8212).
\<close>

type_synonym jsstring = "nat list"

definition js :: "string \<Rightarrow> jsstring" where
  "js s = map of_char s"

definition isUpperAscii :: "nat \<Rightarrow> bool" where
  "isUpperAscii c = (65 \<le> c \<and> c \<le> 90)"

definition isLowerAscii :: "nat \<Rightarrow> bool" where
  "isLowerAscii c = (97 \<le> c \<and> c \<le> 122)"

definition lowerUnit :: "nat \<Rightarrow> nat" where
  "lowerUnit c = (if isUpperAscii c then c + 32 else c)"

definition upperUnit :: "nat \<Rightarrow> nat" where
  "upperUnit c = (if isLowerAscii c then c - 32 else c)"

text \<open>
  \<open>toLowerCase\<close> and \<open>toUpperCase\<close> on the letters A to Z; every other code unit is
  left as it is (exact for digits, punctuation, white space, dashes and quotes).
\<close>

definition toLowerCase :: "jsstring \<Rightarrow> jsstring" where
  "toLowerCase s = map lowerUnit s"

definition toUpperCase :: "jsstring \<Rightarrow> jsstring" where
  "toUpperCase s = map upperUnit s"

fun inRanges :: "(nat \<times> nat) list \<Rightarrow> nat \<Rightarrow> bool" where
  "inRanges [] c = False"
| "inRanges ((lo, hi) # rs) c = ((lo \<le> c \<and> c \<le> hi) \<or> inRanges rs c)"

text \<open>The class \<open>\s\<close>: white space and line terminators.\<close>

definition wsRanges :: "(nat \<times> nat) list" where
  "wsRanges = [(9, 13), (32, 32), (160, 160), (5760, 5760), (8192, 8202), (8232, 8233),
     (8239, 8239), (8287, 8287), (12288, 12288), (65279, 65279)]"

definition isSpace :: "nat \<Rightarrow> bool" where
  "isSpace c = inRanges wsRanges c"

definition isLineTerminator :: "nat \<Rightarrow> bool" where
  "isLineTerminator c = (c = 10 \<or> c = 13 \<or> c = 8232 \<or> c = 8233)"

definition wordRanges :: "(nat \<times> nat) list" where
  "wordRanges = [(97, 122), (65, 90), (48, 57), (95, 95)]"

definition isWordChar :: "nat \<Rightarrow> bool" where
  "isWordChar c = inRanges wordRanges c"

definition trim :: "jsstring \<Rightarrow> jsstring" where
  "trim s = rev (dropWhile isSpace (rev (dropWhile isSpace s)))"

text \<open>\<open>s.substring(a, b)\<close> for \<open>a \<le> b\<close>, both clamped to the length by \<open>take\<close> and \<open>drop\<close>.\<close>

definition substring :: "jsstring \<Rightarrow> nat \<Rightarrow> nat \<Rightarrow> jsstring" where
  "substring s a b = take (b - a) (drop a s)"

fun isPrefixOf :: "jsstring \<Rightarrow> jsstring \<Rightarrow> bool" where
  "isPrefixOf [] ys = True"
| "isPrefixOf (x # xs) [] = False"
| "isPrefixOf (x # xs) (y # ys) = (x = y \<and> isPrefixOf xs ys)"

text \<open>\<open>s.includes(sub)\<close> (the name \<open>includes\<close> is taken by the prover).\<close>

fun includesStr :: "jsstring \<Rightarrow> jsstring \<Rightarrow> bool" where
  "includesStr [] sub = isPrefixOf sub []"
| "includesStr (c # cs) sub = (isPrefixOf sub (c # cs) \<or> includesStr cs sub)"

section \<open>Regular expressions of the runtime\<close>

text \<open>
  The patterns of the source are written as terms of \<open>re\<close> and run by a backtracking
  matcher in continuation-passing style, which tries the alternatives in the order the
  runtime does: the left branch of \<open>|\<close> first, one more iteration of a greedy quantifier
  before leaving it, leaving a lazy quantifier before one more iteration.  An iteration
  of \<open>*\<close> that consumes nothing is rejected, as in the runtime.
\<close>

datatype re =
    Cls bool "(nat \<times> nat) list"
  | Eps
  | Bol
  | Eol
  | WordB
  | Seq re re
  | Alt re re
  | Star bool re
  | Grp nat re

datatype mstate = MState (pos: nat) (prev: "nat option") (rest: jsstring)
  (caps: "(nat \<times> jsstring) list")

type_synonym cont = "mstate \<Rightarrow> mstate option"

text \<open>
  A class \<open>[...]\<close> (negated when the flag is set) under the \<open>i\<close> flag matches a code
  unit when the unit or its other case is a member.
\<close>

definition clsMatch :: "bool \<Rightarrow> bool \<Rightarrow> (nat \<times> nat) list \<Rightarrow> nat \<Rightarrow> bool" where
  "clsMatch ic neg rs c =
     ((if ic then inRanges rs c \<or> inRanges rs (lowerUnit c) \<or> inRanges rs (upperUnit c)
       else inRanges rs c) \<noteq> neg)"

definition atBol :: "bool \<Rightarrow> mstate \<Rightarrow> bool" where
  "atBol ml s = (case prev s of None \<Rightarrow> True | Some c \<Rightarrow> ml \<and> isLineTerminator c)"

definition atEol :: "bool \<Rightarrow> mstate \<Rightarrow> bool" where
  "atEol ml s = (case rest s of [] \<Rightarrow> True | c # cs \<Rightarrow> ml \<and> isLineTerminator c)"

definition atWordB :: "mstate \<Rightarrow> bool" where
  "atWordB s =
     ((case prev s of None \<Rightarrow> False | Some c \<Rightarrow> isWordChar c)
      \<noteq> (case rest s of [] \<Rightarrow> False | c # cs \<Rightarrow> isWordChar c))"

primrec star :: "jsstring \<Rightarrow> bool \<Rightarrow> (cont \<Rightarrow> cont) \<Rightarrow> cont \<Rightarrow> cont" where
  "star [] g f k s = k s"
| "star (x # fuel) g f k s =
     (if g then
        (case f (\<lambda>s'. if pos s < pos s' then star fuel g f k s' else None) s of
           Some r \<Rightarrow> Some r
         | None \<Rightarrow> k s)
      else
        (case k s of
           Some r \<Rightarrow> Some r
         | None \<Rightarrow> f (\<lambda>s'. if pos s < pos s' then star fuel g f k s' else None) s))"

definition setCap :: "nat \<Rightarrow> jsstring \<Rightarrow> mstate \<Rightarrow> mstate" where
  "setCap i t s = MState (pos s) (prev s) (rest s) ((i, t) # caps s)"

primrec m :: "re \<Rightarrow> bool \<Rightarrow> bool \<Rightarrow> cont \<Rightarrow> cont" where
  "m (Cls neg rs) ic ml k s =
     (case rest s of
        [] \<Rightarrow> None
      | c # cs \<Rightarrow> if clsMatch ic neg rs c then k (MState (Suc (pos s)) (Some c) cs (caps s))
                  else None)"
| "m Eps ic ml k s = k s"
| "m Bol ic ml k s = (if atBol ml s then k s else None)"
| "m Eol ic ml k s = (if atEol ml s then k s else None)"
| "m WordB ic ml k s = (if atWordB s then k s else None)"
| "m (Seq a b) ic ml k s = m a ic ml (m b ic ml k) s"
| "m (Alt a b) ic ml k s =
     (case m a ic ml k s of Some r \<Rightarrow> Some r | None \<Rightarrow> m b ic ml k s)"
| "m (Star g a) ic ml k s = star (rest s) g (m a ic ml) k s"
| "m (Grp i a) ic ml k s =
     m a ic ml (\<lambda>s'. k (setCap i (take (pos s' - pos s) (rest s)) s')) s"

text \<open>The result of one successful match: \<open>match.index\<close>, \<open>match[0]\<close> and the groups.\<close>

datatype rmatch = RMatch (index: nat) (matched: jsstring) (groups: "(nat \<times> jsstring) list")

text \<open>\<open>match[i]\<close>: the last capture of group \<open>i\<close>, \<open>None\<close> for \<open>undefined\<close>.\<close>

definition grp :: "rmatch \<Rightarrow> nat \<Rightarrow> jsstring option" where
  "grp mt i = map_of (groups mt) i"

text \<open>One attempt of the pattern at a fixed position of the input.\<close>

definition matchAt :: "re \<Rightarrow> bool \<Rightarrow> bool \<Rightarrow> nat \<Rightarrow> nat option \<Rightarrow> jsstring \<Rightarrow> rmatch option" where
  "matchAt r ic ml p pv cs =
     (case m r ic ml Some (MState p pv cs []) of
        None \<Rightarrow> None
      | Some e \<Rightarrow> Some (RMatch p (take (pos e - p) cs) (caps e)))"

text \<open>\<open>exec\<close>: the leftmost position from which the pattern matches.\<close>

primrec searchFrom :: "jsstring \<Rightarrow> re \<Rightarrow> bool \<Rightarrow> bool \<Rightarrow> nat \<Rightarrow> nat option \<Rightarrow> rmatch option" where
  "searchFrom [] r ic ml p pv = matchAt r ic ml p pv []"
| "searchFrom (c # cs) r ic ml p pv =
     (case matchAt r ic ml p pv (c # cs) of
        Some mt \<Rightarrow> Some mt
      | None \<Rightarrow> searchFrom cs r ic ml (Suc p) (Some c))"

definition exec :: "re \<Rightarrow> bool \<Rightarrow> bool \<Rightarrow> jsstring \<Rightarrow> rmatch option" where
  "exec r ic ml s = searchFrom s r ic ml 0 None"

text \<open>
  The loop \<open>while ((match = re.exec(s)) !== null)\<close> of a pattern with the \<open>g\<close> flag:
  every search starts where the last match ended.  \<open>skip\<close> counts the code units of
  the last match that are still to be passed.  The loop of the source would not end
  after an empty match; the four patterns it runs match one code unit at least.
\<close>

primrec execAllFrom :: "jsstring \<Rightarrow> re \<Rightarrow> bool \<Rightarrow> bool \<Rightarrow> nat \<Rightarrow> nat \<Rightarrow> nat option \<Rightarrow> rmatch list" where
  "execAllFrom [] r ic ml skip p pv =
     (if skip = 0 then (case matchAt r ic ml p pv [] of None \<Rightarrow> [] | Some mt \<Rightarrow> [mt]) else [])"
| "execAllFrom (c # cs) r ic ml skip p pv =
     (if skip = 0 then
        (case matchAt r ic ml p pv (c # cs) of
           None \<Rightarrow> execAllFrom cs r ic ml 0 (Suc p) (Some c)
         | Some mt \<Rightarrow> mt # execAllFrom cs r ic ml (length (matched mt) - 1) (Suc p) (Some c))
      else execAllFrom cs r ic ml (skip - 1) (Suc p) (Some c))"

definition execAll :: "re \<Rightarrow> bool \<Rightarrow> bool \<Rightarrow> jsstring \<Rightarrow> rmatch list" where
  "execAll r ic ml s = execAllFrom s r ic ml 0 0 None"

text \<open>\<open>s.replace(re, repl)\<close> with the \<open>g\<close> flag and a replacement without \<open>$\<close>.\<close>

primrec replaceAllFrom :: "jsstring \<Rightarrow> re \<Rightarrow> bool \<Rightarrow> bool \<Rightarrow> jsstring \<Rightarrow> nat \<Rightarrow> nat \<Rightarrow> nat option \<Rightarrow> jsstring" where
  "replaceAllFrom [] r ic ml repl skip p pv =
     (if skip = 0 then (case matchAt r ic ml p pv [] of None \<Rightarrow> [] | Some mt \<Rightarrow> repl) else [])"
| "replaceAllFrom (c # cs) r ic ml repl skip p pv =
     (if skip = 0 then
        (case matchAt r ic ml p pv (c # cs) of
           None \<Rightarrow> c # replaceAllFrom cs r ic ml repl 0 (Suc p) (Some c)
         | Some mt \<Rightarrow>
             repl @ (if matched mt = [] then [c] else [])
               @ replaceAllFrom cs r ic ml repl (length (matched mt) - 1) (Suc p) (Some c))
      else replaceAllFrom cs r ic ml repl (skip - 1) (Suc p) (Some c))"

definition replaceAll :: "re \<Rightarrow> bool \<Rightarrow> bool \<Rightarrow> jsstring \<Rightarrow> jsstring \<Rightarrow> jsstring" where
  "replaceAll r ic ml repl s = replaceAllFrom s r ic ml repl 0 0 None"

text \<open>\<open>s.replace(re, repl)\<close> without the \<open>g\<close> flag: the first match only.\<close>

definition replaceFirst :: "re \<Rightarrow> bool \<Rightarrow> bool \<Rightarrow> jsstring \<Rightarrow> jsstring \<Rightarrow> jsstring" where
  "replaceFirst r ic ml repl s =
     (case exec r ic ml s of
        None \<Rightarrow> s
      | Some mt \<Rightarrow> take (index mt) s @ repl @ drop (index mt + length (matched mt)) s)"

text \<open>\<open>s.split(re)[0]\<close> for a pattern that matches no empty string: the text before the first match.\<close>

definition splitFirst :: "re \<Rightarrow> bool \<Rightarrow> bool \<Rightarrow> jsstring \<Rightarrow> jsstring" where
  "splitFirst r ic ml s =
     (case exec r ic ml s of None \<Rightarrow> s | Some mt \<Rightarrow> take (index mt) s)"

subsection \<open>Pattern notation\<close>

primrec lit :: "jsstring \<Rightarrow> re" where
  "lit [] = Eps"
| "lit (c # cs) = Seq (Cls False [(c, c)]) (lit cs)"

definition chr :: "nat \<Rightarrow> re" where
  "chr c = Cls False [(c, c)]"

definition plus :: "bool \<Rightarrow> re \<Rightarrow> re" where
  "plus g r = Seq r (Star g r)"

definition opt :: "re \<Rightarrow> re" where
  "opt r = Alt r Eps"

definition anyUnit :: re where
  "anyUnit = Cls True []"

definition space :: re where
  "space = Cls False wsRanges"

definition digit :: re where
  "digit = Cls False [(48, 57)]"

definition wordUnit :: re where
  "wordUnit = Cls False wordRanges"

primrec seqs :: "re list \<Rightarrow> re" where
  "seqs [] = Eps"
| "seqs (r # rs) = Seq r (seqs rs)"

fun alts :: "re list \<Rightarrow> re" where
  "alts [] = Cls False []"
| "alts [r] = r"
| "alts (r # rs) = Alt r (alts rs)"

section \<open>The parser (scripts/lib/parser.ts)\<close>

datatype act_status = in_force | amended | repealed | not_yet_in_force

record ActIndexEntry =
  entry_id :: jsstring
  entry_title :: jsstring
  titleEn :: jsstring
  shortName :: jsstring
  entry_status :: act_status
  issuedDate :: jsstring
  inForceDate :: jsstring
  entry_url :: jsstring
  entry_description :: "jsstring option"

text \<open>
  The fields \<open>chapter\<close>, \<open>section\<close>, \<open>title\<close>, \<open>term\<close> and \<open>definition\<close> of the source
  carry a prefix here: the bare names are keywords of the prover or fields of another
  record.
\<close>

record ParsedProvision =
  provision_ref :: jsstring
  prov_chapter :: "jsstring option"
  prov_section :: jsstring
  prov_title :: jsstring
  content :: jsstring

record ParsedDefinition =
  def_term :: jsstring
  def_definition :: jsstring
  source_provision :: "jsstring option"

record ParsedAct =
  act_id :: jsstring
  act_title :: jsstring
  title_en :: jsstring
  short_name :: jsstring
  act_status :: act_status
  issued_date :: jsstring
  in_force_date :: jsstring
  act_url :: jsstring
  act_description :: "jsstring option"
  provisions :: "ParsedProvision list"
  definitions :: "ParsedDefinition list"

subsection \<open>stripHtml\<close>

definition notGt :: re where
  "notGt = Cls True [(62, 62)]"

text \<open>The patterns and replacements of \<open>stripHtml\<close>, in the order of the source.\<close>

definition stripSteps :: "(re \<times> bool \<times> bool \<times> jsstring) list" where
  "stripSteps =
    [(seqs [lit (js ''<br''), Star True space, opt (chr 47), chr 62], True, False, [10]),
     (lit (js ''</p>''), True, False, [10]),
     (seqs [chr 60, plus True notGt, chr 62], False, False, [32]),
     (lit (js ''&nbsp;''), False, False, [32]),
     (lit (js ''&#xA0;''), False, False, [32]),
     (lit (js ''&#160;''), False, False, [32]),
     (lit (js ''&amp;''), False, False, [38]),
     (lit (js ''&lt;''), False, False, [60]),
     (lit (js ''&gt;''), False, False, [62]),
     (lit (js ''&quot;''), False, False, [34]),
     (lit (js ''&#39;''), False, False, [39]),
     (lit (js ''&mdash;''), False, False, [8212]),
     (lit (js ''&ndash;''), False, False, [8211]),
     (lit (js ''&rsquo;''), False, False, [8217]),
     (lit (js ''&lsquo;''), False, False, [8216]),
     (lit (js ''&ldquo;''), False, False, [8220]),
     (lit (js ''&rdquo;''), False, False, [8221]),
     (chr 8203, False, False, []),
     (plus True (Cls False [(32, 32), (9, 9)]), False, False, [32]),
     (seqs [chr 10, Star True space, chr 10], False, False, [10]),
     (Alt (Seq Bol (plus True space)) (Seq (plus True space) Eol), False, True, [])]"

definition applyStep :: "jsstring \<Rightarrow> re \<times> bool \<times> bool \<times> jsstring \<Rightarrow> jsstring" where
  "applyStep s st = (case st of (r, ic, ml, repl) \<Rightarrow> replaceAll r ic ml repl s)"

definition stripHtml :: "jsstring \<Rightarrow> jsstring" where
  "stripHtml html = trim (foldl applyStep html stripSteps)"

subsection \<open>Patterns of parsePhilippineHtml\<close>

definition bodyPattern :: re where
  "bodyPattern =
     seqs [lit (js ''<body''), Star True notGt, chr 62, Grp 1 (Star False anyUnit),
           lit (js ''</body>'')]"

definition tags :: re where
  "tags = Star True (seqs [chr 60, Star True notGt, chr 62, Star True space])"

definition sectionNumber :: re where
  "sectionNumber = Seq (plus True digit) (Star True (Cls False [(65, 90), (97, 122)]))"

definition sectionPattern :: re where
  "sectionPattern =
     seqs [Alt Bol (chr 10), Star True space, tags,
       Alt (seqs [alts [lit (js ''Section''), lit (js ''Sec.''), lit (js ''SEC.''),
                        lit (js ''SECTION'')],
                  plus True space, Grp 1 sectionNumber, opt (chr 46), Star True space])
           (seqs [alts [lit (js ''Article''), lit (js ''Art.''), lit (js ''ART.''),
                        lit (js ''ARTICLE'')],
                  plus True space, Grp 2 sectionNumber, opt (chr 46), Star True space])]"

definition chapterPattern :: re where
  "chapterPattern =
     seqs [tags, Grp 1 (Alt (lit (js ''CHAPTER'')) (lit (js ''TITLE''))), plus True space,
       Grp 2 (Alt (plus True (Cls False [(73, 73), (86, 86), (88, 88), (76, 76), (67, 67),
                                         (68, 68), (77, 77)]))
                  (plus True (Cls False [(48, 57)]))),
       WordB, Star False anyUnit,
       Alt (chr 10) (seqs [lit (js ''<br''), Star True notGt, chr 62])]"

definition dashes :: re where
  "dashes = Cls False [(45, 45), (8211, 8211), (8212, 8212)]"

definition titlePattern :: re where
  "titlePattern = seqs [Bol, Grp 1 (plus True (Cls True [(46, 46)])), chr 46]"

definition leadingDash :: re where
  "leadingDash = seqs [Bol, Star True space, dashes, Star True space]"

definition leadingJunk :: re where
  "leadingJunk = Seq Bol (plus True (Cls False ((45, 45) # (46, 46) # wsRanges)))"

definition defPattern :: re where
  "defPattern =
     seqs [opt (seqs [chr 40, plus True (Cls False [(97, 122), (48, 57)]), chr 41,
                      Star True space]),
       Cls False [(34, 34), (8220, 8220)],
       Grp 1 (plus True (Cls True [(34, 34), (8221, 8221)])),
       Cls False [(34, 34), (8221, 8221)],
       Star True space,
       alts [lit (js ''refers to''), lit (js ''means''), lit (js ''shall mean''),
             lit (js ''shall refer to''), lit (js ''includes''), lit (js ''has the meaning''),
             lit (js ''is''), lit (js ''are'')],
       plus True space,
       Grp 2 (Seq (plus True (Cls True [(59, 59)])) (Cls False [(59, 59), (46, 46)]))]"

definition finalStop :: re where
  "finalStop = Seq (Cls False [(59, 59), (46, 46)]) Eol"

subsection \<open>extractDefinitions\<close>

text \<open>\<open>match[i]\<close> of a group that took part in the match; \<open>undefined\<close> reads as the empty string.\<close>

definition grpText :: "rmatch \<Rightarrow> nat \<Rightarrow> jsstring" where
  "grpText mt i = (case grp mt i of None \<Rightarrow> [] | Some t \<Rightarrow> t)"

definition definitionOf :: "jsstring \<Rightarrow> rmatch \<Rightarrow> ParsedDefinition option" where
  "definitionOf sourceProvision mt =
     (let term = trim (grpText mt 1);
          definition = trim (replaceFirst finalStop False False [] (grpText mt 2))
      in if length term > 0 \<and> length term < 100 \<and> length definition > 5
         then Some \<lparr> def_term = term, def_definition = substring definition 0 4000,
                     source_provision = Some sourceProvision \<rparr>
         else None)"

text \<open>The array \<open>definitions\<close> is passed in and returned with the new entries pushed.\<close>

definition extractDefinitions ::
  "jsstring \<Rightarrow> jsstring \<Rightarrow> ParsedDefinition list \<Rightarrow> ParsedDefinition list" where
  "extractDefinitions text sourceProvision defs =
     defs @ List.map_filter (definitionOf sourceProvision) (execAll defPattern True False text)"

subsection \<open>parsePhilippineHtml\<close>

definition bodyHtmlOf :: "jsstring \<Rightarrow> jsstring" where
  "bodyHtmlOf html =
     (case exec bodyPattern True False html of None \<Rightarrow> html | Some mt \<Rightarrow> grpText mt 1)"

record SectionStart =
  start_index :: nat
  sectionNum :: jsstring
  matchLength :: nat

definition sectionStartOf :: "rmatch \<Rightarrow> SectionStart option" where
  "sectionStartOf mt =
     (let num = trim (case grp mt 1 of Some t \<Rightarrow> t
                      | None \<Rightarrow> (case grp mt 2 of Some t \<Rightarrow> t | None \<Rightarrow> []))
      in if num \<noteq> []
         then Some \<lparr> start_index = index mt, sectionNum = num,
                     matchLength = length (matched mt) \<rparr>
         else None)"

definition sectionStarts :: "jsstring \<Rightarrow> SectionStart list" where
  "sectionStarts bodyHtml =
     List.map_filter sectionStartOf (execAll sectionPattern True False bodyHtml)"

record Chapter =
  chapter_index :: nat
  chapter_name :: jsstring

definition chapterOf :: "jsstring \<Rightarrow> rmatch \<Rightarrow> Chapter" where
  "chapterOf bodyHtml mt =
     (let after = index mt + length (matched mt);
          afterChapter = substring bodyHtml after (min (after + 300) (length bodyHtml));
          titleLine = trim (stripHtml (splitFirst (Alt (chr 10) (lit (js ''<br''))) True False
                                         afterChapter));
          chapterLabel = toUpperCase (grpText mt 1 @ js '' '' @ grpText mt 2);
          chapterName = (if titleLine \<noteq> [] then chapterLabel @ js '' - '' @ titleLine
                         else chapterLabel)
      in \<lparr> chapter_index = index mt, chapter_name = chapterName \<rparr>)"

definition chapters :: "jsstring \<Rightarrow> Chapter list" where
  "chapters bodyHtml = map (chapterOf bodyHtml) (execAll chapterPattern True False bodyHtml)"

text \<open>The state of the loop over the sections: \<open>currentChapter\<close> and the two arrays.\<close>

record ParseState =
  currentChapter :: jsstring
  provs :: "ParsedProvision list"
  defs :: "ParsedDefinition list"

definition updateChapter :: "Chapter list \<Rightarrow> nat \<Rightarrow> jsstring \<Rightarrow> jsstring" where
  "updateChapter chs startIndex cur =
     foldl (\<lambda>c ch. if chapter_index ch \<le> startIndex then chapter_name ch else c) cur chs"

definition sectionTitle :: "jsstring \<Rightarrow> jsstring" where
  "sectionTitle afterMarker =
     (let titleText = stripHtml (takeWhile (\<lambda>c. c \<noteq> 10) afterMarker);
          title = (case exec titlePattern False False titleText of
                     Some mt \<Rightarrow> trim (replaceFirst leadingDash False False [] (grpText mt 1))
                   | None \<Rightarrow>
                       substring (trim (replaceFirst leadingDash False False [] titleText)) 0 200)
      in trim (replaceFirst leadingJunk False False [] title))"

definition mentionsDefinitions :: "jsstring \<Rightarrow> bool" where
  "mentionsDefinitions title =
     (includesStr (toLowerCase title) (js ''definition'')
      \<or> includesStr (toLowerCase title) (js ''interpretation'')
      \<or> includesStr (toLowerCase title) (js ''terms''))"

text \<open>One iteration of the loop: the section from \<open>start\<close> up to \<open>nextStart\<close>.\<close>

definition processSection ::
  "jsstring \<Rightarrow> Chapter list \<Rightarrow> SectionStart \<Rightarrow> nat \<Rightarrow> ParseState \<Rightarrow> ParseState" where
  "processSection bodyHtml chs start nextStart st =
     (let cur = updateChapter chs (start_index start) (currentChapter st);
          sectionHtml = substring bodyHtml (start_index start) nextStart;
          afterMarker = drop (matchLength start) sectionHtml;
          title = sectionTitle afterMarker;
          stripped = stripHtml sectionHtml;
          provisionRef = js ''sec'' @ toLowerCase (sectionNum start);
          provs' = (if length stripped > 10
                    then provs st @ [\<lparr> provision_ref = provisionRef,
                                         prov_chapter = (if cur = [] then None else Some cur),
                                         prov_section = sectionNum start,
                                         prov_title = title,
                                         content = substring stripped 0 12000 \<rparr>]
                    else provs st);
          defs' = (if mentionsDefinitions title
                   then extractDefinitions stripped provisionRef (defs st)
                   else defs st)
      in \<lparr> currentChapter = cur, provs = provs', defs = defs' \<rparr>)"

fun sectionLoop ::
  "jsstring \<Rightarrow> Chapter list \<Rightarrow> SectionStart list \<Rightarrow> ParseState \<Rightarrow> ParseState" where
  "sectionLoop bodyHtml chs [] st = st"
| "sectionLoop bodyHtml chs [start] st =
     processSection bodyHtml chs start (length bodyHtml) st"
| "sectionLoop bodyHtml chs (start # nxt # others) st =
     sectionLoop bodyHtml chs (nxt # others)
       (processSection bodyHtml chs start (start_index nxt) st)"

text \<open>
  A \<open>Map\<close> keeps its keys in the order of their first insertion: an association list
  where \<open>set\<close> on a present key replaces the value in place.
\<close>

fun mapSet :: "'k \<Rightarrow> 'v \<Rightarrow> ('k \<times> 'v) list \<Rightarrow> ('k \<times> 'v) list" where
  "mapSet k v [] = [(k, v)]"
| "mapSet k v ((k', v') # kvs) = (if k' = k then (k, v) # kvs else (k', v') # mapSet k v kvs)"

definition keepLonger ::
  "('a \<Rightarrow> jsstring) \<Rightarrow> ('a \<Rightarrow> jsstring) \<Rightarrow> (jsstring \<times> 'a) list \<Rightarrow> 'a \<Rightarrow> (jsstring \<times> 'a) list" where
  "keepLonger key text mp x =
     (case map_of mp (key x) of
        None \<Rightarrow> mapSet (key x) x mp
      | Some existing \<Rightarrow>
          if length (text x) > length (text existing) then mapSet (key x) x mp else mp)"

definition dedupProvisions :: "ParsedProvision list \<Rightarrow> ParsedProvision list" where
  "dedupProvisions ps = map snd (foldl (keepLonger provision_ref content) [] ps)"

definition dedupDefinitions :: "ParsedDefinition list \<Rightarrow> ParsedDefinition list" where
  "dedupDefinitions ds =
     map snd (foldl (keepLonger (\<lambda>d. toLowerCase (def_term d)) def_definition) [] ds)"

text \<open>The two arrays as they stand after the loop over the sections, before deduplication.\<close>

definition parseSections :: "jsstring \<Rightarrow> ParseState" where
  "parseSections html =
     (let bodyHtml = bodyHtmlOf html
      in sectionLoop bodyHtml (chapters bodyHtml) (sectionStarts bodyHtml)
           \<lparr> currentChapter = [], provs = [], defs = [] \<rparr>)"

definition parsePhilippineHtml :: "jsstring \<Rightarrow> ActIndexEntry \<Rightarrow> ParsedAct" where
  "parsePhilippineHtml html act =
     (let st = parseSections html
      in \<lparr> act_id = entry_id act,
           act_title = entry_title act,
           title_en = titleEn act,
           short_name = shortName act,
           act_status = entry_status act,
           issued_date = issuedDate act,
           in_force_date = inForceDate act,
           act_url = entry_url act,
           act_description = entry_description act,
           provisions = dedupProvisions (provs st),
           definitions = dedupDefinitions (defs st) \<rparr>)"

section \<open>The fetcher (scripts/lib/fetcher.ts)\<close>

text \<open>
  Time is a logical clock in milliseconds, read by \<open>Date.now()\<close>.  It advances when
  the program waits on a timer (by the delay asked for, plus the lateness of that
  timer) and while a request is in flight.  The environment fixes what the \<open>n\<close>-th
  request of the run is answered, how long it takes, and how late the \<open>k\<close>-th timer
  fires.  A response whose body cannot be read is a \<open>NetworkError\<close>: the source
  treats both alike (retry with the same backoff, rethrow at the last attempt).
\<close>

record FetchResult =
  status :: nat
  body :: jsstring
  contentType :: jsstring
  url :: jsstring

datatype response = NetworkError jsstring | Response FetchResult

record Env =
  respond :: "nat \<Rightarrow> jsstring \<Rightarrow> response"
  latency :: "nat \<Rightarrow> nat"
  lateness :: "nat \<Rightarrow> nat"

record NetState =
  clock :: int
  lastRequestTime :: int
  requestLog :: "(int \<times> jsstring) list"
  timers :: nat

definition MIN_DELAY_MS :: int where
  "MIN_DELAY_MS = 500"

text \<open>\<open>await new Promise(resolve => setTimeout(resolve, d))\<close>\<close>

definition sleep :: "Env \<Rightarrow> nat \<Rightarrow> NetState \<Rightarrow> NetState" where
  "sleep env d st =
     st \<lparr> clock := clock st + int d + int (lateness env (timers st)),
          timers := Suc (timers st) \<rparr>"

definition rateLimit :: "Env \<Rightarrow> NetState \<Rightarrow> NetState" where
  "rateLimit env st =
     (let now = clock st;
          elapsed = now - lastRequestTime st;
          st1 = (if elapsed < MIN_DELAY_MS then sleep env (nat (MIN_DELAY_MS - elapsed)) st
                 else st)
      in st1 \<lparr> lastRequestTime := clock st1 \<rparr>)"

text \<open>One call of \<open>fetch\<close>: the request is logged with the time it starts.\<close>

definition doFetch :: "Env \<Rightarrow> jsstring \<Rightarrow> NetState \<Rightarrow> response \<times> NetState" where
  "doFetch env u st =
     (let n = length (requestLog st)
      in (respond env n u,
          st \<lparr> requestLog := requestLog st @ [(clock st, u)],
               clock := clock st + int (latency env n) \<rparr>))"

datatype fetch_error = Thrown jsstring | FailedAfterRetries

definition backoff :: "nat \<Rightarrow> nat" where
  "backoff attempt = 2 ^ (attempt + 1) * 1000"

text \<open>The loop \<open>for (let attempt = 0; attempt <= maxRetries; attempt++)\<close>.\<close>

function fetchAttempts ::
  "Env \<Rightarrow> jsstring \<Rightarrow> nat \<Rightarrow> nat \<Rightarrow> NetState \<Rightarrow> (fetch_error + FetchResult) \<times> NetState" where
  "fetchAttempts env u maxRetries attempt st =
     (if attempt \<le> maxRetries then
        (case doFetch env u st of
           (Response r, st1) \<Rightarrow>
             if (status r = 429 \<or> status r \<ge> 500) \<and> attempt < maxRetries
             then fetchAttempts env u maxRetries (Suc attempt) (sleep env (backoff attempt) st1)
             else (Inr r, st1)
         | (NetworkError e, st1) \<Rightarrow>
             if attempt < maxRetries
             then fetchAttempts env u maxRetries (Suc attempt) (sleep env (backoff attempt) st1)
             else (Inl (Thrown e), st1))
      else (Inl FailedAfterRetries, st))"
  by pat_completeness auto
termination
  by (relation "measure (\<lambda>(env, u, maxRetries, attempt, st). Suc maxRetries - attempt)") auto

definition fetchWithRateLimit ::
  "Env \<Rightarrow> jsstring \<Rightarrow> nat \<Rightarrow> NetState \<Rightarrow> (fetch_error + FetchResult) \<times> NetState" where
  "fetchWithRateLimit env u maxRetries st = fetchAttempts env u maxRetries 0 (rateLimit env st)"

text \<open>
  Calls made one after the other, each with the default \<open>maxRetries = 3\<close>; the list
  holds, for every call, the time at which it passed the pacing gate and started its
  first request (the value it left in \<open>lastRequestTime\<close>).
\<close>

fun startTimes :: "Env \<Rightarrow> jsstring list \<Rightarrow> NetState \<Rightarrow> int list" where
  "startTimes env [] st = []"
| "startTimes env (u # us) st =
     (let st' = snd (fetchWithRateLimit env u 3 st)
      in lastRequestTime st' # startTimes env us st')"

section \<open>The census (scripts/census.ts)\<close>

datatype category = cat_republic_act | cat_constitution | cat_act

datatype classification = ingestable | inaccessible | metadata_only

record CensusLaw =
  law_id :: jsstring
  raNumber :: nat
  year :: nat
  law_title :: jsstring
  date :: jsstring
  law_url :: jsstring
  category :: category
  classification :: classification

text \<open>The decimal digits of a number, as the template string prints it.\<close>

fun digitsOf :: "nat \<Rightarrow> jsstring" where
  "digitsOf n = (if n < 10 then [48 + n] else digitsOf (n div 10) @ [48 + n mod 10])"

definition raToId :: "nat \<Rightarrow> jsstring" where
  "raToId n = js ''ra-'' @ digitsOf n"

definition isDigit :: "nat \<Rightarrow> bool" where
  "isDigit c = (48 \<le> c \<and> c \<le> 57)"

text \<open>
  \<open>parseInt(s, 10)\<close> on a string that starts with no sign and no white space (here
  always a match of \<open>\d+\<close>): the value of the leading digits, \<open>None\<close> for \<open>NaN\<close>.
  The numbers of the runtime are doubles; the value is exact below \<open>2^53\<close>, and the
  number of a Republic Act has five digits at most.
\<close>

definition parseInt10 :: "jsstring \<Rightarrow> nat option" where
  "parseInt10 s =
     (let ds = takeWhile isDigit s
      in if ds = [] then None else Some (foldl (\<lambda>a d. a * 10 + (d - 48)) 0 ds))"

definition months :: "(jsstring \<times> jsstring) list" where
  "months =
     [(js ''january'', js ''01''), (js ''february'', js ''02''), (js ''march'', js ''03''),
      (js ''april'', js ''04''), (js ''may'', js ''05''), (js ''june'', js ''06''),
      (js ''july'', js ''07''), (js ''august'', js ''08''), (js ''september'', js ''09''),
      (js ''october'', js ''10''), (js ''november'', js ''11''), (js ''december'', js ''12'')]"

text \<open>
  The table \<open>months\<close> is an object literal: besides its twelve keys, a lookup finds the two
  properties with a lower-case name that every object inherits, \<open>constructor\<close> (the
  function \<open>Object\<close>) and \<open>__proto__\<close> (an object), as the template string prints them.
\<close>

definition inheritedKeys :: "(jsstring \<times> jsstring) list" where
  "inheritedKeys =
     [(js ''constructor'', js ''function Object() { [native code] }''),
      (js ''__proto__'', js ''[object Object]'')]"

definition parseMonth :: "jsstring \<Rightarrow> jsstring" where
  "parseMonth month =
     (case map_of (months @ inheritedKeys) (toLowerCase month) of
        Some mm \<Rightarrow> mm
      | None \<Rightarrow> js ''01'')"

definition datePattern :: re where
  "datePattern =
     seqs [Bol, Grp 1 (plus True wordUnit), plus True space, Grp 2 (Seq digit (opt digit)),
           opt (chr 44), plus True space, Grp 3 (seqs [digit, digit, digit, digit]), Eol]"

definition padStart2 :: "jsstring \<Rightarrow> jsstring" where
  "padStart2 t = replicate (2 - length t) 48 @ t"

definition parseDate :: "jsstring \<Rightarrow> jsstring" where
  "parseDate dateStr =
     (case exec datePattern False False (trim dateStr) of
        None \<Rightarrow> []
      | Some mt \<Rightarrow>
          grpText mt 3 @ js ''-'' @ parseMonth (grpText mt 1) @ js ''-'' @ padStart2 (grpText mt 2))"

text \<open>The \<open>stripHtml\<close> of the census script.\<close>

definition censusStripSteps :: "(re \<times> bool \<times> bool \<times> jsstring) list" where
  "censusStripSteps =
    [(seqs [chr 60, plus True notGt, chr 62], False, False, [32]),
     (lit (js ''&nbsp;''), False, False, [32]),
     (lit (js ''&amp;''), False, False, [38]),
     (lit (js ''&lt;''), False, False, [60]),
     (lit (js ''&gt;''), False, False, [62]),
     (lit (js ''&quot;''), False, False, [34]),
     (lit (js ''&#39;''), False, False, [39]),
     (lit (js ''&rsquo;''), False, False, [8217]),
     (lit (js ''&ldquo;''), False, False, [8220]),
     (lit (js ''&rdquo;''), False, False, [8221]),
     (lit (js ''&mdash;''), False, False, [8212]),
     (lit (js ''&ndash;''), False, False, [8211]),
     (plus True space, False, False, [32])]"

definition census_stripHtml :: "jsstring \<Rightarrow> jsstring" where
  "census_stripHtml html = trim (foldl applyStep html censusStripSteps)"

definition fourDigits :: re where
  "fourDigits = seqs [digit, digit, digit, digit]"

definition rowRe :: re where
  "rowRe =
     seqs [lit (js ''<tr''), Star True notGt, chr 62, Star True space, lit (js ''<td>''),
       Star True space, lit (js ''<a''), plus True space, lit (js ''href=''), chr 34,
       Grp 1 (seqs [lit (js ''ra''), fourDigits, chr 47, lit (js ''ra_''),
                    Grp 2 (plus True digit), chr 95, Grp 3 fourDigits, lit (js ''.html'')]),
       chr 34, Star True notGt, chr 62, lit (js ''Republic Act No.''), Star True space,
       Grp 4 (plus True digit), lit (js ''</a>''), Star True space,
       lit (js ''<br''), Star True space, opt (chr 47), chr 62, Star True space,
       Grp 5 (plus True (Cls True [(60, 60)])), lit (js ''</td>''), Star True space,
       lit (js ''<td>''), Grp 6 (Star False anyUnit), lit (js ''</td>'')]"

definition lawOfRow :: "rmatch \<Rightarrow> nat \<Rightarrow> nat \<Rightarrow> CensusLaw" where
  "lawOfRow mt n y =
     \<lparr> law_id = raToId n,
       raNumber = n,
       year = y,
       law_title = census_stripHtml (grpText mt 6),
       date = parseDate (trim (grpText mt 5)),
       law_url = js ''https://lawphil.net/statutes/repacts/'' @ grpText mt 1,
       category = cat_republic_act,
       classification = ingestable \<rparr>"

text \<open>One iteration of the loop of \<open>parseIndexPage\<close>; the state is \<open>laws\<close> and \<open>seen\<close>.\<close>

definition indexRow ::
  "CensusLaw list \<times> jsstring set \<Rightarrow> rmatch \<Rightarrow> CensusLaw list \<times> jsstring set" where
  "indexRow acc mt =
     (case (parseInt10 (grpText mt 4), parseInt10 (grpText mt 3)) of
        (Some n, Some y) \<Rightarrow>
          if raToId n \<in> snd acc then acc
          else (fst acc @ [lawOfRow mt n y], insert (raToId n) (snd acc))
      | _ \<Rightarrow> acc)"

definition parseRows :: "rmatch list \<Rightarrow> CensusLaw list" where
  "parseRows rows = fst (foldl indexRow ([], {}) rows)"

definition parseIndexPage :: "jsstring \<Rightarrow> CensusLaw list" where
  "parseIndexPage html = parseRows (execAll rowRe True False html)"

definition specialEntries :: "CensusLaw list" where
  "specialEntries =
     [\<lparr> law_id = js ''constitution-1987'', raNumber = 0, year = 1987,
        law_title = js ''1987 Constitution of the Republic of the Philippines'',
        date = js ''1987-02-02'',
        law_url = js ''https://lawphil.net/consti/cons1987.html'',
        category = cat_constitution, classification = ingestable \<rparr>,
      \<lparr> law_id = js ''act-3815-revised-penal-code'', raNumber = 0, year = 1930,
        law_title = js ''Revised Penal Code (Act No. 3815)'',
        date = js ''1930-12-08'',
        law_url = js ''https://lawphil.net/statutes/acts/act1930/act_3815_1930.html'',
        category = cat_act, classification = ingestable \<rparr>]"

text \<open>The comparator of \<open>laws.sort\<close>, and the stable sort of the runtime.\<close>

definition compareLaws :: "CensusLaw \<Rightarrow> CensusLaw \<Rightarrow> int" where
  "compareLaws a b =
     (if category a \<noteq> cat_republic_act \<and> category b = cat_republic_act then 1
      else if category a = cat_republic_act \<and> category b \<noteq> cat_republic_act then - 1
      else int (raNumber b) - int (raNumber a))"

fun insertSorted :: "('a \<Rightarrow> 'a \<Rightarrow> int) \<Rightarrow> 'a \<Rightarrow> 'a list \<Rightarrow> 'a list" where
  "insertSorted cmp x [] = [x]"
| "insertSorted cmp x (y # ys) =
     (if cmp x y \<le> 0 then x # y # ys else y # insertSorted cmp x ys)"

definition sortWith :: "('a \<Rightarrow> 'a \<Rightarrow> int) \<Rightarrow> 'a list \<Rightarrow> 'a list" where
  "sortWith cmp xs = foldr (insertSorted cmp) xs []"

definition BASE_URL :: jsstring where
  "BASE_URL = js ''https://lawphil.net/statutes/repacts/''"

text \<open>
  \<open>main\<close> of the census script, up to the list \<open>laws\<close> it writes: \<open>None\<close> when the run
  ends with \<open>process.exit(1)\<close>.
\<close>

definition census_main :: "Env \<Rightarrow> NetState \<Rightarrow> CensusLaw list option" where
  "census_main env st =
     (case fst (fetchWithRateLimit env BASE_URL 3 st) of
        Inl e \<Rightarrow> None
      | Inr result \<Rightarrow>
          if status result \<noteq> 200 then None
          else Some (sortWith compareLaws (parseIndexPage (body result) @ specialEntries)))"

section \<open>The ingestion pipeline (scripts/ingest.ts)\<close>

definition KEY_PHILIPPINE_ACTS :: "ActIndexEntry list" where
  "KEY_PHILIPPINE_ACTS =
  [\<lparr> entry_id = js ''ra-10173-data-privacy-act'',
     entry_title = js ''Data Privacy Act of 2012'',
     titleEn = js ''Data Privacy Act of 2012'',
     shortName = js ''RA 10173'',
     entry_status = in_force,
     issuedDate = js ''2012-08-15'',
     inForceDate = js ''2012-09-08'',
     entry_url = js ''https://lawphil.net/statutes/repacts/ra2012/ra_10173_2012.html'',
     entry_description = Some (js ''Comprehensive data protection law establishing the National Privacy Co'' @
                              js ''mmission (NPC); protects individual personal information in informatio'' @
                              js ''n and communications systems'') \<rparr>,
   \<lparr> entry_id = js ''ra-10175-cybercrime-prevention'',
     entry_title = js ''Cybercrime Prevention Act of 2012'',
     titleEn = js ''Cybercrime Prevention Act of 2012'',
     shortName = js ''RA 10175'',
     entry_status = in_force,
     issuedDate = js ''2012-09-12'',
     inForceDate = js ''2012-10-03'',
     entry_url = js ''https://lawphil.net/statutes/repacts/ra2012/ra_10175_2012.html'',
     entry_description = Some (js ''Defines and penalises cybercrimes including illegal access, data inter'' @
                              js ''ference, cybersex, child pornography, identity theft, and online libel'') \<rparr>,
   \<lparr> entry_id = js ''ra-11934-sim-registration'',
     entry_title = js ''SIM Registration Act'',
     titleEn = js ''SIM Registration Act'',
     shortName = js ''RA 11934'',
     entry_status = in_force,
     issuedDate = js ''2022-10-10'',
     inForceDate = js ''2022-12-27'',
     entry_url = js ''https://lawphil.net/statutes/repacts/ra2022/ra_11934_2022.html'',
     entry_description = Some (js ''Requires registration of all SIM cards and social media accounts with '' @
                              js ''telecommunications providers; aimed at deterring crimes committed thro'' @
                              js ''ugh mobile phones and the internet'') \<rparr>,
   \<lparr> entry_id = js ''ra-8792-e-commerce'',
     entry_title = js ''Electronic Commerce Act of 2000'',
     titleEn = js ''Electronic Commerce Act of 2000'',
     shortName = js ''RA 8792'',
     entry_status = in_force,
     issuedDate = js ''2000-06-14'',
     inForceDate = js ''2000-06-14'',
     entry_url = js ''https://lawphil.net/statutes/repacts/ra2000/ra_8792_2000.html'',
     entry_description = Some (js ''Provides legal recognition and admissibility of electronic documents, '' @
                              js ''electronic signatures, and electronic commerce transactions'') \<rparr>,
   \<lparr> entry_id = js ''ra-11232-revised-corporation-code'',
     entry_title = js ''Revised Corporation Code of the Philippines'',
     titleEn = js ''Revised Corporation Code of the Philippines'',
     shortName = js ''RA 11232'',
     entry_status = in_force,
     issuedDate = js ''2019-02-20'',
     inForceDate = js ''2019-02-23'',
     entry_url = js ''https://lawphil.net/statutes/repacts/ra2019/ra_11232_2019.html'',
     entry_description = Some (js ''Modernised corporate governance framework; introduces perpetual corpor'' @
                              js ''ate existence, one-person corporations, and remote board meetings'') \<rparr>,
   \<lparr> entry_id = js ''ra-7394-consumer-act'',
     entry_title = js ''Consumer Act of the Philippines'',
     titleEn = js ''Consumer Act of the Philippines'',
     shortName = js ''RA 7394'',
     entry_status = in_force,
     issuedDate = js ''1992-04-13'',
     inForceDate = js ''1992-04-13'',
     entry_url = js ''https://lawphil.net/statutes/repacts/ra1992/ra_7394_1992.html'',
     entry_description = Some (js ''Comprehensive consumer protection legislation covering product quality'' @
                              js '', labelling, warranties, price regulation, and consumer redress'') \<rparr>,
   \<lparr> entry_id = js ''constitution-1987'',
     entry_title = js ''1987 Constitution of the Republic of the Philippines'',
     titleEn = js ''1987 Constitution of the Republic of the Philippines'',
     shortName = js ''1987 Constitution'',
     entry_status = in_force,
     issuedDate = js ''1987-02-02'',
     inForceDate = js ''1987-02-02'',
     entry_url = js ''https://lawphil.net/consti/cons1987.html'',
     entry_description = Some (js ''Supreme law of the Philippines; Article III (Bill of Rights) protects '' @
                              js ''privacy of communication and correspondence (Sec. 3), due process (Sec'' @
                              js ''. 1), and freedom of expression (Sec. 4)'') \<rparr>,
   \<lparr> entry_id = js ''act-3815-revised-penal-code'',
     entry_title = js ''Revised Penal Code'',
     titleEn = js ''Revised Penal Code'',
     shortName = js ''Act No. 3815'',
     entry_status = in_force,
     issuedDate = js ''1930-12-08'',
     inForceDate = js ''1932-01-01'',
     entry_url = js ''https://lawphil.net/statutes/acts/act1930/act_3815_1930.html'',
     entry_description = Some (js ''Primary criminal law of the Philippines; covers offences against perso'' @
                              js ''ns, property, public interest, and public order; Articles relevant to '' @
                              js ''computer fraud and electronic document forgery'') \<rparr>,
   \<lparr> entry_id = js ''ra-8484-access-devices-regulation'',
     entry_title = js ''Access Devices Regulation Act of 1998'',
     titleEn = js ''Access Devices Regulation Act of 1998'',
     shortName = js ''RA 8484'',
     entry_status = in_force,
     issuedDate = js ''1998-02-11'',
     inForceDate = js ''1998-02-11'',
     entry_url = js ''https://lawphil.net/statutes/repacts/ra1998/ra_8484_1998.html'',
     entry_description = Some (js ''Regulates access devices (credit cards, debit cards, account numbers);'' @
                              js '' penalises fraud, counterfeiting, and unauthorised use of access devic'' @
                              js ''es'') \<rparr>,
   \<lparr> entry_id = js ''ra-9995-anti-voyeurism'',
     entry_title = js ''Anti-Photo and Video Voyeurism Act of 2009'',
     titleEn = js ''Anti-Photo and Video Voyeurism Act of 2009'',
     shortName = js ''RA 9995'',
     entry_status = in_force,
     issuedDate = js ''2010-02-15'',
     inForceDate = js ''2010-02-15'',
     entry_url = js ''https://lawphil.net/statutes/repacts/ra2010/ra_9995_2010.html'',
     entry_description = Some (js ''Prohibits taking, copying, reproducing, selling, or distributing photo'' @
                              js ''s, videos, or recordings of sexual acts without consent; addresses rev'' @
                              js ''enge porn and non-consensual intimate images'') \<rparr>]"

definition createFallbackSeed :: "ActIndexEntry \<Rightarrow> ParsedAct" where
  "createFallbackSeed act =
     \<lparr> act_id = entry_id act,
       act_title = entry_title act,
       title_en = titleEn act,
       short_name = shortName act,
       act_status = entry_status act,
       issued_date = issuedDate act,
       in_force_date = inForceDate act,
       act_url = entry_url act,
       act_description = entry_description act,
       provisions = [],
       definitions = [] \<rparr>"

datatype run_status = Cached | HttpFallback nat | FetchFailedFallback | OK

record ResultRow =
  row_act :: jsstring
  row_provisions :: nat
  row_definitions :: nat
  row_status :: run_status

text \<open>
  The state of a run: the network, the two directories (a file \<open>id.html\<close> or \<open>id.json\<close>
  is found under \<open>id\<close>; seed files hold records the pipeline wrote), the counters of the
  report, and the records written by \<open>writeFileSync(seedFile, ...)\<close> in the order of
  writing.  Reading and writing a file succeeds.
\<close>

record RunState =
  net :: NetState
  sourceFiles :: "jsstring \<rightharpoonup> jsstring"
  seedFiles :: "jsstring \<rightharpoonup> ParsedAct"
  emitted :: "ParsedAct list"
  results :: "ResultRow list"
  processed :: nat
  skipped :: nat
  failed :: nat
  totalProvisions :: nat
  totalDefinitions :: nat

definition writeSeed :: "ActIndexEntry \<Rightarrow> ParsedAct \<Rightarrow> RunState \<Rightarrow> RunState" where
  "writeSeed act r st =
     st \<lparr> seedFiles := (seedFiles st)(entry_id act \<mapsto> r), emitted := emitted st @ [r] \<rparr>"

definition useCachedSeed :: "ActIndexEntry \<Rightarrow> ParsedAct \<Rightarrow> RunState \<Rightarrow> RunState" where
  "useCachedSeed act existing st =
     st \<lparr> totalProvisions := totalProvisions st + length (provisions existing),
          totalDefinitions := totalDefinitions st + length (definitions existing),
          results := results st @ [\<lparr> row_act = shortName act,
                                      row_provisions = length (provisions existing),
                                      row_definitions = length (definitions existing),
                                      row_status = Cached \<rparr>],
          skipped := skipped st + 1,
          processed := processed st + 1 \<rparr>"

definition storeFallback :: "ActIndexEntry \<Rightarrow> run_status \<Rightarrow> RunState \<Rightarrow> RunState" where
  "storeFallback act why st =
     (let st1 = writeSeed act (createFallbackSeed act) st
      in st1 \<lparr> results := results st1 @ [\<lparr> row_act = shortName act, row_provisions = 0,
                                            row_definitions = 0, row_status = why \<rparr>],
              failed := failed st1 + 1,
              processed := processed st1 + 1 \<rparr>)"

definition parseAndStore :: "ActIndexEntry \<Rightarrow> jsstring \<Rightarrow> RunState \<Rightarrow> RunState" where
  "parseAndStore act html st =
     (let parsed = parsePhilippineHtml html act;
          st1 = writeSeed act parsed st
      in st1 \<lparr> totalProvisions := totalProvisions st1 + length (provisions parsed),
              totalDefinitions := totalDefinitions st1 + length (definitions parsed),
              results := results st1 @ [\<lparr> row_act = shortName act,
                                            row_provisions = length (provisions parsed),
                                            row_definitions = length (definitions parsed),
                                            row_status = OK \<rparr>],
              processed := processed st1 + 1 \<rparr>)"

text \<open>
  The body of the loop \<open>for (const act of acts)\<close>.  The parser raises nothing, so the
  outer \<open>catch\<close> of the source has no branch here.
\<close>

definition processAct :: "Env \<Rightarrow> bool \<Rightarrow> RunState \<Rightarrow> ActIndexEntry \<Rightarrow> RunState" where
  "processAct env skipFetch st act =
     (case (if skipFetch then seedFiles st (entry_id act) else None) of
        Some existing \<Rightarrow> useCachedSeed act existing st
      | None \<Rightarrow>
          (case (if skipFetch then sourceFiles st (entry_id act) else None) of
             Some html \<Rightarrow> parseAndStore act html st
           | None \<Rightarrow>
               (case fetchWithRateLimit env (entry_url act) 3 (net st) of
                  (Inr result, net') \<Rightarrow>
                    if status result \<noteq> 200
                    then storeFallback act (HttpFallback (status result)) (st \<lparr> net := net' \<rparr>)
                    else parseAndStore act (body result)
                           (st \<lparr> net := net',
                                 sourceFiles := (sourceFiles st)(entry_id act \<mapsto> body result) \<rparr>)
                | (Inl e, net') \<Rightarrow>
                    storeFallback act FetchFailedFallback (st \<lparr> net := net' \<rparr>))))"

definition fetchAndParseActs :: "Env \<Rightarrow> ActIndexEntry list \<Rightarrow> bool \<Rightarrow> RunState \<Rightarrow> RunState" where
  "fetchAndParseActs env acts skipFetch st = foldl (processAct env skipFetch) st acts"

text \<open>\<open>xs.slice(0, n)\<close>: a negative \<open>n\<close> counts from the end.\<close>

definition slice0 :: "'a list \<Rightarrow> int \<Rightarrow> 'a list" where
  "slice0 xs n = (if n < 0 then take (nat (int (length xs) + n)) xs else take (nat n) xs)"

text \<open>The result of \<open>parseArgs\<close>; \<open>limit\<close> is \<open>None\<close> for \<open>null\<close> and for \<open>NaN\<close>.\<close>

record Args =
  limit :: "int option"
  skipFetchArg :: bool

definition worklist :: "Args \<Rightarrow> ActIndexEntry list" where
  "worklist args =
     (case limit args of
        None \<Rightarrow> KEY_PHILIPPINE_ACTS
      | Some n \<Rightarrow> if n \<noteq> 0 then slice0 KEY_PHILIPPINE_ACTS n else KEY_PHILIPPINE_ACTS)"

definition ingest_main :: "Env \<Rightarrow> Args \<Rightarrow> RunState \<Rightarrow> RunState" where
  "ingest_main env args st = fetchAndParseActs env (worklist args) (skipFetchArg args) st"

section \<open>Sample inputs\<close>

text \<open>A server that answers every request with the same status, and a fresh run.\<close>

definition serverAlways :: "nat \<Rightarrow> Env" where
  "serverAlways code =
     \<lparr> respond = (\<lambda>n u. Response \<lparr> status = code, body = [], contentType = [], url = u \<rparr>),
       latency = (\<lambda>n. 120), lateness = (\<lambda>k. 0) \<rparr>"

definition net0 :: NetState where
  "net0 = \<lparr> clock = 1000000, lastRequestTime = 0, requestLog = [], timers = 0 \<rparr>"

definition run0 :: RunState where
  "run0 = \<lparr> net = net0, sourceFiles = Map.empty, seedFiles = Map.empty, emitted = [],
            results = [], processed = 0, skipped = 0, failed = 0, totalProvisions = 0,
            totalDefinitions = 0 \<rparr>"

definition dataPrivacyAct :: ActIndexEntry where
  "dataPrivacyAct = hd KEY_PHILIPPINE_ACTS"

text \<open>
  The text of the scenario of section 3, as a whole document: a
  marker \<open>Section 3.\<close>, then the heading, an em dash and one quoted definition.
\<close>

definition sampleAfter :: jsstring where
  "sampleAfter = js ''Definition of Terms. '' @ [8212] @ js '' (a) '' @ [34]
     @ js ''Personal information'' @ [34] @ js '' refers to any information...;''"

definition sampleHtml :: jsstring where
  "sampleHtml = js ''Section 3. '' @ sampleAfter"

text \<open>Two sections with the same number, the second with the longer body.\<close>

definition twiceFirst :: jsstring where
  "twiceFirst = js ''Sec. 1. Short title.''"

definition twiceSecond :: jsstring where
  "twiceSecond = [10] @ js ''Sec. 1. Short title of this Act.''"

definition twiceHtml :: jsstring where
  "twiceHtml = twiceFirst @ twiceSecond"

text \<open>A section marker with nothing after it.\<close>

definition bareMarker :: jsstring where
  "bareMarker = js ''Sec. 9.''"

text \<open>An index page with two rows for Republic Act No. 12036, of the years 2024 and 2023.\<close>

definition indexRow1 :: jsstring where
  "indexRow1 = js ''<tr><td><a href='' @ [34] @ js ''ra2024/ra_12036_2024.html'' @ [34]
     @ js ''>Republic Act No. 12036</a><br>October 17, 2024</td><td>An Act</td></tr>''"

definition indexRow2 :: jsstring where
  "indexRow2 = js ''<tr><td><a href='' @ [34] @ js ''ra2023/ra_12036_2023.html'' @ [34]
     @ js ''>Republic Act No. 12036</a><br>May 5, 2023</td><td>Other</td></tr>''"

definition indexSample :: jsstring where
  "indexSample = indexRow1 @ indexRow2"

text \<open>A server that answers every request with status 200 and the same page.\<close>

definition serverPage :: "jsstring \<Rightarrow> Env" where
  "serverPage page =
     \<lparr> respond = (\<lambda>n u. Response \<lparr> status = 200, body = page, contentType = js ''text/html'',
                                   url = u \<rparr>),
       latency = (\<lambda>n. 120), lateness = (\<lambda>k. 0) \<rparr>"

definition fullRun :: Args where
  "fullRun = \<lparr> limit = None, skipFetchArg = False \<rparr>"

text \<open>The records the parser is to return for the samples.\<close>

definition sampleProvision :: ParsedProvision where
  "sampleProvision =
     \<lparr> provision_ref = js ''sec3'', prov_chapter = None, prov_section = js ''3'',
       prov_title = js ''Definition of Terms'', content = sampleHtml \<rparr>"

definition sampleDefinition :: ParsedDefinition where
  "sampleDefinition =
     \<lparr> def_term = js ''Personal information'', def_definition = js ''any information...'',
       source_provision = Some (js ''sec3'') \<rparr>"

definition twiceProvision1 :: ParsedProvision where
  "twiceProvision1 =
     \<lparr> provision_ref = js ''sec1'', prov_chapter = None, prov_section = js ''1'',
       prov_title = js ''Short title'', content = js ''Sec. 1. Short title.'' \<rparr>"

definition twiceProvision2 :: ParsedProvision where
  "twiceProvision2 =
     \<lparr> provision_ref = js ''sec1'', prov_chapter = None, prov_section = js ''1'',
       prov_title = js ''Short title of this Act'',
       content = js ''Sec. 1. Short title of this Act.'' \<rparr>"

definition sampleLaw :: CensusLaw where
  "sampleLaw =
     \<lparr> law_id = js ''ra-12036'', raNumber = 12036, year = 2024, law_title = js ''An Act'',
       date = js ''2024-10-17'',
       law_url = js ''https://lawphil.net/statutes/repacts/ra2024/ra_12036_2024.html'',
       category = cat_republic_act, classification = ingestable \<rparr>"

definition bareStart :: SectionStart where
  "bareStart = \<lparr> start_index = 0, sectionNum = js ''9'', matchLength = 7 \<rparr>"

definition emptyParse :: ParseState where
  "emptyParse = \<lparr> currentChapter = [], provs = [], defs = [] \<rparr>"

section \<open>Notions of the proofs\<close>

text \<open>
  What a pattern can do from a state of the matcher, without the order of the attempts:
  \<open>reaches ic ml r s s'\<close> when \<open>r\<close> can take the matcher from \<open>s\<close> to \<open>s'\<close>.
\<close>

inductive reaches :: "bool \<Rightarrow> bool \<Rightarrow> re \<Rightarrow> mstate \<Rightarrow> mstate \<Rightarrow> bool" for ic ml where
  r_cls: "rest s = c # cs \<Longrightarrow> clsMatch ic neg rs c \<Longrightarrow>
            reaches ic ml (Cls neg rs) s (MState (Suc (pos s)) (Some c) cs (caps s))"
| r_eps: "reaches ic ml Eps s s"
| r_bol: "atBol ml s \<Longrightarrow> reaches ic ml Bol s s"
| r_eol: "atEol ml s \<Longrightarrow> reaches ic ml Eol s s"
| r_wordb: "atWordB s \<Longrightarrow> reaches ic ml WordB s s"
| r_seq: "reaches ic ml a s s1 \<Longrightarrow> reaches ic ml b s1 s2 \<Longrightarrow> reaches ic ml (Seq a b) s s2"
| r_alt1: "reaches ic ml a s s' \<Longrightarrow> reaches ic ml (Alt a b) s s'"
| r_alt2: "reaches ic ml b s s' \<Longrightarrow> reaches ic ml (Alt a b) s s'"
| r_star0: "reaches ic ml (Star g a) s s"
| r_star: "reaches ic ml a s s1 \<Longrightarrow> pos s < pos s1 \<Longrightarrow> reaches ic ml (Star g a) s1 s2 \<Longrightarrow>
             reaches ic ml (Star g a) s s2"
| r_grp: "reaches ic ml a s s' \<Longrightarrow>
            reaches ic ml (Grp i a) s (setCap i (take (pos s' - pos s) (rest s)) s')"

inductive_cases reaches_SeqE: "reaches ic ml (Seq a b) s s2"
inductive_cases reaches_GrpE: "reaches ic ml (Grp i a) s s2"
inductive_cases reaches_ClsE: "reaches ic ml (Cls neg rs) s s2"

text \<open>The least number of code units a match of a pattern consumes, and its groups.\<close>

primrec minlen :: "re \<Rightarrow> nat" where
  "minlen (Cls neg rs) = 1"
| "minlen Eps = 0"
| "minlen Bol = 0"
| "minlen Eol = 0"
| "minlen WordB = 0"
| "minlen (Seq a b) = minlen a + minlen b"
| "minlen (Alt a b) = min (minlen a) (minlen b)"
| "minlen (Star g a) = 0"
| "minlen (Grp i a) = minlen a"

primrec groupsOf :: "re \<Rightarrow> nat set" where
  "groupsOf (Cls neg rs) = {}"
| "groupsOf Eps = {}"
| "groupsOf Bol = {}"
| "groupsOf Eol = {}"
| "groupsOf WordB = {}"
| "groupsOf (Seq a b) = groupsOf a \<union> groupsOf b"
| "groupsOf (Alt a b) = groupsOf a \<union> groupsOf b"
| "groupsOf (Star g a) = groupsOf a"
| "groupsOf (Grp i a) = insert i (groupsOf a)"

text \<open>What the map of a deduplication loop holds while it runs.\<close>

definition keyed :: "('a \<Rightarrow> jsstring) \<Rightarrow> (jsstring \<times> 'a) list \<Rightarrow> bool" where
  "keyed key mp = (distinct (map fst mp) \<and> (\<forall>(k, v) \<in> set mp. key v = k))"

text \<open>The entry of a key after the loop: an element of the input with that key, at
  least as long as every element of the input with that key.\<close>

definition winner :: "('a \<Rightarrow> jsstring) \<Rightarrow> ('a \<Rightarrow> jsstring) \<Rightarrow> 'a list \<Rightarrow> jsstring \<Rightarrow> 'a \<Rightarrow> bool" where
  "winner key tx xs k w =
     (w \<in> set xs \<and> key w = k \<and> (\<forall>x \<in> set xs. key x = k \<longrightarrow> length (tx x) \<le> length (tx w)))"

text \<open>Every provision the loop pushes is longer than 10 and at most 12000 code units long.\<close>

definition sized :: "ParsedProvision \<Rightarrow> bool" where
  "sized p = (10 < length (content p) \<and> length (content p) \<le> 12000)"

text \<open>Every definition collected so far names a provision collected so far.\<close>

definition resolved :: "ParseState \<Rightarrow> bool" where
  "resolved st =
     (\<forall>d \<in> set (defs st). \<exists>p \<in> set (provs st). source_provision d = Some (provision_ref p))"

text \<open>What the loop of parseIndexPage holds.\<close>

definition indexed :: "CensusLaw list \<times> jsstring set \<Rightarrow> bool" where
  "indexed acc =
     (snd acc = law_id ` set (fst acc) \<and> distinct (map law_id (fst acc))
      \<and> (\<forall>l \<in> set (fst acc). law_id l = raToId (raNumber l) \<and> category l = cat_republic_act))"

section \<open>The fetcher: retries and pacing\<close>

declare fetchAttempts.simps [simp del]

lemma sleep_fields:
  "lastRequestTime (sleep env d st) = lastRequestTime st"
  "requestLog (sleep env d st) = requestLog st"
  "clock st + int d \<le> clock (sleep env d st)"
  by (simp_all add: sleep_def)

lemma doFetch_fields:
  "lastRequestTime (snd (doFetch env u st)) = lastRequestTime st"
  "requestLog (snd (doFetch env u st)) = requestLog st @ [(clock st, u)]"
  "fst (doFetch env u st) = respond env (length (requestLog st)) u"
  by (simp_all add: doFetch_def Let_def)

lemma fetchAttempts_done:
  "\<not> attempt \<le> maxRetries \<Longrightarrow>
     fetchAttempts env u maxRetries attempt st = (Inl FailedAfterRetries, st)"
  by (subst fetchAttempts.simps) simp

lemma fetchAttempts_retry_status:
  "attempt < maxRetries \<Longrightarrow> doFetch env u st = (Response r, st1) \<Longrightarrow>
   status r = 429 \<or> status r \<ge> 500 \<Longrightarrow>
     fetchAttempts env u maxRetries attempt st
       = fetchAttempts env u maxRetries (Suc attempt) (sleep env (backoff attempt) st1)"
  by (subst fetchAttempts.simps) simp

lemma fetchAttempts_return:
  "attempt \<le> maxRetries \<Longrightarrow> doFetch env u st = (Response r, st1) \<Longrightarrow>
   \<not> ((status r = 429 \<or> status r \<ge> 500) \<and> attempt < maxRetries) \<Longrightarrow>
     fetchAttempts env u maxRetries attempt st = (Inr r, st1)"
  by (subst fetchAttempts.simps) auto

lemma fetchAttempts_retry_error:
  "attempt < maxRetries \<Longrightarrow> doFetch env u st = (NetworkError e, st1) \<Longrightarrow>
     fetchAttempts env u maxRetries attempt st
       = fetchAttempts env u maxRetries (Suc attempt) (sleep env (backoff attempt) st1)"
  by (subst fetchAttempts.simps) simp

lemma fetchAttempts_throw:
  "attempt \<le> maxRetries \<Longrightarrow> doFetch env u st = (NetworkError e, st1) \<Longrightarrow>
   \<not> attempt < maxRetries \<Longrightarrow>
     fetchAttempts env u maxRetries attempt st = (Inl (Thrown e), st1)"
  by (subst fetchAttempts.simps) simp

lemma fetchAttempts_lastRequestTime:
  "lastRequestTime (snd (fetchAttempts env u maxRetries attempt st)) = lastRequestTime st"
proof (induction env u maxRetries attempt st rule: fetchAttempts.induct)
  case (1 env u maxRetries attempt st)
  show ?case
  proof (cases "attempt \<le> maxRetries")
    case False
    then show ?thesis by (simp add: fetchAttempts_done)
  next
    case True
    obtain rsp st1 where df: "doFetch env u st = (rsp, st1)" by (cases "doFetch env u st")
    have l1: "lastRequestTime st1 = lastRequestTime st"
      using doFetch_fields(1)[of env u st] df by simp
    show ?thesis
    proof (cases rsp)
      case (NetworkError e)
      show ?thesis
      proof (cases "attempt < maxRetries")
        case retry: True
        have "lastRequestTime (snd (fetchAttempts env u maxRetries (Suc attempt)
                 (sleep env (backoff attempt) st1))) = lastRequestTime (sleep env (backoff attempt) st1)"
          using "1.IH"(1)[OF True df[symmetric] NetworkError retry] by simp
        then show ?thesis
          using fetchAttempts_retry_error[OF retry df[unfolded NetworkError]] l1
          by (simp add: sleep_fields)
      next
        case False
        then show ?thesis
          using fetchAttempts_throw[OF True df[unfolded NetworkError] False] l1 by simp
      qed
    next
      case (Response r)
      show ?thesis
      proof (cases "(status r = 429 \<or> status r \<ge> 500) \<and> attempt < maxRetries")
        case retry: True
        have "lastRequestTime (snd (fetchAttempts env u maxRetries (Suc attempt)
                 (sleep env (backoff attempt) st1))) = lastRequestTime (sleep env (backoff attempt) st1)"
          using "1.IH"(2)[OF True df[symmetric] Response retry] by simp
        then show ?thesis
          using fetchAttempts_retry_status[OF _ df[unfolded Response]] retry l1
          by (simp add: sleep_fields)
      next
        case False
        then show ?thesis
          using fetchAttempts_return[OF True df[unfolded Response] False] l1 by simp
      qed
    qed
  qed
qed

lemma rateLimit_stamp:
  "lastRequestTime st + MIN_DELAY_MS \<le> lastRequestTime (rateLimit env st)"
  by (simp add: rateLimit_def Let_def sleep_def MIN_DELAY_MS_def)

lemma rateLimit_stamp_is_clock:
  "lastRequestTime (rateLimit env st) = clock (rateLimit env st)"
  "requestLog (rateLimit env st) = requestLog st"
  by (simp_all add: rateLimit_def Let_def sleep_def)

lemma fetchWithRateLimit_stamp:
  "lastRequestTime st + MIN_DELAY_MS
     \<le> lastRequestTime (snd (fetchWithRateLimit env u maxRetries st))"
  by (simp add: fetchWithRateLimit_def fetchAttempts_lastRequestTime rateLimit_stamp)

lemma fetchAttempts_first:
  "attempt \<le> maxRetries \<Longrightarrow>
     \<exists>others. requestLog (snd (fetchAttempts env u maxRetries attempt st))
               = requestLog st @ (clock st, u) # others"
proof (induction env u maxRetries attempt st rule: fetchAttempts.induct)
  case (1 env u maxRetries attempt st)
  have le: "attempt \<le> maxRetries" by (rule "1.prems")
  obtain rsp st1 where df: "doFetch env u st = (rsp, st1)" by (cases "doFetch env u st")
  have l1: "requestLog st1 = requestLog st @ [(clock st, u)]"
    using doFetch_fields(2)[of env u st] df by simp
  let ?st2 = "sleep env (backoff attempt) st1"
  have l2: "requestLog ?st2 = requestLog st @ [(clock st, u)]"
    using l1 by (simp add: sleep_fields)
  show ?case
  proof (cases rsp)
    case (NetworkError e)
    show ?thesis
    proof (cases "attempt < maxRetries")
      case retry: True
      then have "Suc attempt \<le> maxRetries" by simp
      from "1.IH"(1)[OF le df[symmetric] NetworkError retry this]
      obtain others where
        "requestLog (snd (fetchAttempts env u maxRetries (Suc attempt) ?st2))
           = requestLog ?st2 @ (clock ?st2, u) # others"
        by blast
      then show ?thesis
        using fetchAttempts_retry_error[OF retry df[unfolded NetworkError]] l2 by simp
    next
      case False
      then show ?thesis
        using fetchAttempts_throw[OF le df[unfolded NetworkError] False] l1 by simp
    qed
  next
    case (Response r)
    show ?thesis
    proof (cases "(status r = 429 \<or> status r \<ge> 500) \<and> attempt < maxRetries")
      case retry: True
      then have "Suc attempt \<le> maxRetries" by simp
      from "1.IH"(2)[OF le df[symmetric] Response retry this]
      obtain others where
        "requestLog (snd (fetchAttempts env u maxRetries (Suc attempt) ?st2))
           = requestLog ?st2 @ (clock ?st2, u) # others"
        by blast
      then show ?thesis
        using fetchAttempts_retry_status[OF _ df[unfolded Response]] retry l2 by simp
    next
      case False
      then show ?thesis
        using fetchAttempts_return[OF le df[unfolded Response] False] l1 by simp
    qed
  qed
qed

text \<open>
  The first request of a call starts at the time the call leaves in \<open>lastRequestTime\<close>:
  the pacing gate reads the clock last, and the request is made next.
\<close>

lemma first_request_at_stamp:
  "requestLog (snd (fetchWithRateLimit env u maxRetries st)) ! length (requestLog st)
     = (lastRequestTime (snd (fetchWithRateLimit env u maxRetries st)), u)"
proof -
  let ?st1 = "rateLimit env st"
  obtain others where
    "requestLog (snd (fetchAttempts env u maxRetries 0 ?st1))
       = requestLog ?st1 @ (clock ?st1, u) # others"
    using fetchAttempts_first[of 0 maxRetries env u ?st1] by auto
  then have "requestLog (snd (fetchWithRateLimit env u maxRetries st))
               = requestLog st @ (lastRequestTime ?st1, u) # others"
    by (simp add: fetchWithRateLimit_def rateLimit_stamp_is_clock)
  moreover have "lastRequestTime (snd (fetchWithRateLimit env u maxRetries st))
                   = lastRequestTime ?st1"
    by (simp add: fetchWithRateLimit_def fetchAttempts_lastRequestTime)
  ultimately show ?thesis by simp
qed

lemma startTimes_length: "length (startTimes env us st) = length us"
  by (induction us arbitrary: st) (simp_all add: Let_def)

lemma startTimes_hd:
  "us \<noteq> [] \<Longrightarrow> lastRequestTime st + MIN_DELAY_MS \<le> hd (startTimes env us st)"
  by (cases us) (simp_all add: Let_def fetchWithRateLimit_stamp)

lemma fetchAttempts_503:
  assumes always: "\<forall>n. \<exists>r. respond env n u = Response r \<and> status r = 503"
  shows "attempt \<le> maxRetries \<Longrightarrow>
    \<exists>r. fst (fetchAttempts env u maxRetries attempt st) = Inr r \<and> status r = 503
      \<and> length (requestLog (snd (fetchAttempts env u maxRetries attempt st)))
          = length (requestLog st) + (maxRetries - attempt) + 1"
proof (induction "maxRetries - attempt" arbitrary: attempt st)
  case 0
  obtain r where r: "respond env (length (requestLog st)) u = Response r" "status r = 503"
    using always by blast
  obtain st1 where df: "doFetch env u st = (Response r, st1)"
    using r(1) doFetch_fields(3)[of env u st] by (cases "doFetch env u st") simp
  have log: "requestLog st1 = requestLog st @ [(clock st, u)]"
    using doFetch_fields(2)[of env u st] df by simp
  have "fetchAttempts env u maxRetries attempt st = (Inr r, st1)"
    using fetchAttempts_return[OF "0.prems" df] "0.hyps" "0.prems" by simp
  then show ?case using r(2) log "0.hyps" by simp
next
  case (Suc d)
  have lt: "attempt < maxRetries" using Suc.hyps(2) by simp
  obtain r where r: "respond env (length (requestLog st)) u = Response r" "status r = 503"
    using always by blast
  obtain st1 where df: "doFetch env u st = (Response r, st1)"
    using r(1) doFetch_fields(3)[of env u st] by (cases "doFetch env u st") simp
  have log: "requestLog st1 = requestLog st @ [(clock st, u)]"
    using doFetch_fields(2)[of env u st] df by simp
  let ?st2 = "sleep env (backoff attempt) st1"
  have step: "fetchAttempts env u maxRetries attempt st
                = fetchAttempts env u maxRetries (Suc attempt) ?st2"
    using fetchAttempts_retry_status[OF lt df] r(2) by simp
  have "d = maxRetries - Suc attempt" using Suc.hyps(2) by simp
  from Suc.hyps(1)[OF this, of ?st2] lt
  obtain r' where r': "fst (fetchAttempts env u maxRetries (Suc attempt) ?st2) = Inr r'"
      "status r' = 503"
      "length (requestLog (snd (fetchAttempts env u maxRetries (Suc attempt) ?st2)))
         = length (requestLog ?st2) + (maxRetries - Suc attempt) + 1"
    by auto
  have "length (requestLog ?st2) = length (requestLog st) + 1"
    using log by (simp add: sleep_fields)
  then show ?case using r' step lt by auto
qed






section \<open>The pipeline: fallback records\<close>

lemma processAct_fetch:
  assumes "\<not> skipFetch \<or> (seedFiles st (entry_id act) = None \<and> sourceFiles st (entry_id act) = None)"
  shows "processAct env skipFetch st act =
     (case fetchWithRateLimit env (entry_url act) 3 (net st) of
        (Inr result, net') \<Rightarrow>
          if status result \<noteq> 200
          then storeFallback act (HttpFallback (status result)) (st \<lparr> net := net' \<rparr>)
          else parseAndStore act (body result)
                 (st \<lparr> net := net',
                       sourceFiles := (sourceFiles st)(entry_id act \<mapsto> body result) \<rparr>)
      | (Inl e, net') \<Rightarrow> storeFallback act FetchFailedFallback (st \<lparr> net := net' \<rparr>))"
  using assms by (auto simp: processAct_def)

lemma storeFallback_emitted:
  "emitted (storeFallback act why st) = emitted st @ [createFallbackSeed act]"
  "seedFiles (storeFallback act why st) (entry_id act) = Some (createFallbackSeed act)"
  by (simp_all add: storeFallback_def writeSeed_def Let_def)

lemma fetch_not_found:
  "fst (fetchWithRateLimit (serverAlways 404) u 3 st)
     = Inr \<lparr> status = 404, body = [], contentType = [], url = u \<rparr>"
proof -
  let ?st = "rateLimit (serverAlways 404) st"
  have "fetchAttempts (serverAlways 404) u 3 0 ?st
          = (Inr \<lparr> status = 404, body = [], contentType = [], url = u \<rparr>,
             snd (doFetch (serverAlways 404) u ?st))"
    by (rule fetchAttempts_return) (simp_all add: doFetch_def serverAlways_def Let_def)
  then show ?thesis by (simp add: fetchWithRateLimit_def)
qed

text \<open>
  C2 (fallback guarantee).  When the pipeline fetches a document (it is not served from
  the cache of a skip-fetch run) and the fetch throws after its retries or returns a
  status other than 200 (which every non-success status is), the record written for
  the document has no provisions and no definitions, and each metadata field is the
  field of the work-list entry.
\<close>

theorem fallback_guarantee:
  assumes fetched: "\<not> skipFetch
      \<or> (seedFiles st (entry_id act) = None \<and> sourceFiles st (entry_id act) = None)"
    and failed: "case fst (fetchWithRateLimit env (entry_url act) 3 (net st)) of
                   Inl e \<Rightarrow> True | Inr result \<Rightarrow> status result \<noteq> 200"
  shows "\<exists>r. emitted (processAct env skipFetch st act) = emitted st @ [r]
    \<and> seedFiles (processAct env skipFetch st act) (entry_id act) = Some r
    \<and> provisions r = [] \<and> definitions r = []
    \<and> act_id r = entry_id act \<and> act_title r = entry_title act \<and> title_en r = titleEn act
    \<and> short_name r = shortName act \<and> act_status r = entry_status act
    \<and> issued_date r = issuedDate act \<and> in_force_date r = inForceDate act
    \<and> act_url r = entry_url act \<and> act_description r = entry_description act"
proof -
  obtain outcome net' where f: "fetchWithRateLimit env (entry_url act) 3 (net st) = (outcome, net')"
    by (cases "fetchWithRateLimit env (entry_url act) 3 (net st)")
  have "\<exists>why. processAct env skipFetch st act = storeFallback act why (st \<lparr> net := net' \<rparr>)"
    using failed f by (cases outcome) (auto simp: processAct_fetch[OF fetched])
  then obtain why where p: "processAct env skipFetch st act = storeFallback act why (st \<lparr> net := net' \<rparr>)"
    by blast
  show ?thesis
    by (rule exI[of _ "createFallbackSeed act"])
       (simp add: p storeFallback_emitted createFallbackSeed_def)
qed


theorem fallback_guarantee_witness:
  "seedFiles run0 (entry_id dataPrivacyAct) = None
   \<and> sourceFiles run0 (entry_id dataPrivacyAct) = None
   \<and> (case fst (fetchWithRateLimit (serverAlways 404) (entry_url dataPrivacyAct) 3 (net run0)) of
         Inl e \<Rightarrow> True | Inr result \<Rightarrow> status result \<noteq> 200)
   \<and> (\<exists>r. emitted (processAct (serverAlways 404) True run0 dataPrivacyAct) = emitted run0 @ [r]
         \<and> seedFiles (processAct (serverAlways 404) True run0 dataPrivacyAct)
              (entry_id dataPrivacyAct) = Some r
         \<and> provisions r = [] \<and> definitions r = []
         \<and> act_id r = entry_id dataPrivacyAct \<and> act_title r = entry_title dataPrivacyAct
         \<and> title_en r = titleEn dataPrivacyAct \<and> short_name r = shortName dataPrivacyAct
         \<and> act_status r = entry_status dataPrivacyAct
         \<and> issued_date r = issuedDate dataPrivacyAct
         \<and> in_force_date r = inForceDate dataPrivacyAct
         \<and> act_url r = entry_url dataPrivacyAct
         \<and> act_description r = entry_description dataPrivacyAct)"
proof -
  have h0: "seedFiles run0 (entry_id dataPrivacyAct) = None
              \<and> sourceFiles run0 (entry_id dataPrivacyAct) = None"
    by (simp add: run0_def)
  then have h1: "\<not> True \<or> (seedFiles run0 (entry_id dataPrivacyAct) = None
                  \<and> sourceFiles run0 (entry_id dataPrivacyAct) = None)"
    by simp
  have h2: "case fst (fetchWithRateLimit (serverAlways 404) (entry_url dataPrivacyAct) 3 (net run0)) of
         Inl e \<Rightarrow> True | Inr result \<Rightarrow> status result \<noteq> 200"
    by (simp add: fetch_not_found)
  show ?thesis
    using h0 h2 fallback_guarantee[OF h1 h2] by blast
qed

section \<open>The matcher is sound\<close>

declare m.simps [simp del] star.simps [simp del]

lemma star_sound:
  assumes body: "\<And>k s res. f k s = Some res \<Longrightarrow> \<exists>s'. reaches ic ml a s s' \<and> k s' = Some res"
  shows "star fuel g f k s = Some res \<Longrightarrow> \<exists>s'. reaches ic ml (Star g a) s s' \<and> k s' = Some res"
proof (induction fuel arbitrary: s res)
  case Nil
  then show ?case by (auto simp: star.simps intro: r_star0)
next
  case (Cons x fuel)
  let ?k' = "\<lambda>s'. if pos s < pos s' then star fuel g f k s' else None"
  from Cons.prems have "f ?k' s = Some res \<or> k s = Some res"
    by (auto simp: star.simps split: if_splits option.splits)
  then show ?case
  proof
    assume "k s = Some res"
    then show ?thesis by (auto intro: r_star0)
  next
    assume "f ?k' s = Some res"
    from body[OF this] obtain s1 where s1: "reaches ic ml a s s1" "?k' s1 = Some res" by blast
    then have lt: "pos s < pos s1" and rec: "star fuel g f k s1 = Some res"
      by (auto split: if_splits)
    from Cons.IH[OF rec] obtain s2 where "reaches ic ml (Star g a) s1 s2" "k s2 = Some res"
      by blast
    then show ?thesis using s1(1) lt by (auto intro: r_star)
  qed
qed

lemma m_sound:
  "m r ic ml k s = Some res \<Longrightarrow> \<exists>s'. reaches ic ml r s s' \<and> k s' = Some res"
proof (induction r arbitrary: k s res)
  case (Cls neg rs)
  then show ?case
    by (auto simp: m.simps split: list.splits if_splits intro: r_cls)
next
  case Eps
  then show ?case by (auto simp: m.simps intro: r_eps)
next
  case Bol
  then show ?case by (auto simp: m.simps split: if_splits intro: r_bol)
next
  case Eol
  then show ?case by (auto simp: m.simps split: if_splits intro: r_eol)
next
  case WordB
  then show ?case by (auto simp: m.simps split: if_splits intro: r_wordb)
next
  case (Seq a b)
  from Seq.prems have "m a ic ml (m b ic ml k) s = Some res" by (simp add: m.simps)
  from Seq.IH(1)[OF this] obtain s1 where s1: "reaches ic ml a s s1" "m b ic ml k s1 = Some res"
    by blast
  from Seq.IH(2)[OF s1(2)] obtain s2 where "reaches ic ml b s1 s2" "k s2 = Some res" by blast
  then show ?case using s1(1) by (auto intro: r_seq)
next
  case (Alt a b)
  from Alt.prems have "m a ic ml k s = Some res \<or> m b ic ml k s = Some res"
    by (auto simp: m.simps split: option.splits)
  then show ?case using Alt.IH by (blast intro: r_alt1 r_alt2)
next
  case (Star g a)
  from Star.prems have "star (rest s) g (m a ic ml) k s = Some res" by (simp add: m.simps)
  then show ?case by (rule star_sound[rotated]) (rule Star.IH)
next
  case (Grp i a)
  let ?k' = "\<lambda>s'. k (setCap i (take (pos s' - pos s) (rest s)) s')"
  from Grp.prems have "m a ic ml ?k' s = Some res" by (simp add: m.simps)
  from Grp.IH[OF this] obtain s' where "reaches ic ml a s s'" "?k' s' = Some res" by blast
  then show ?case by (auto intro: r_grp)
qed

lemma reaches_facts:
  "reaches ic ml r s s' \<Longrightarrow>
     pos s + minlen r \<le> pos s'
     \<and> pos s' + length (rest s') = pos s + length (rest s)
     \<and> (\<forall>i. i \<notin> groupsOf r \<longrightarrow> map_of (caps s') i = map_of (caps s) i)"
  by (induction rule: reaches.induct) (auto simp: setCap_def)

section \<open>Deduplication\<close>

lemma mapSet_keys: "fst ` set (mapSet k v mp) = insert k (fst ` set mp)"
proof (induction mp)
  case Nil
  show ?case by simp
next
  case (Cons kv mp)
  obtain k' v' where kv: "kv = (k', v')" by (cases kv)
  show ?case using Cons.IH by (cases "k' = k") (simp_all add: kv insert_commute)
qed

lemma mapSet_map_of: "map_of (mapSet k v mp) = (map_of mp)(k \<mapsto> v)"
  by (induction mp) auto

lemma mapSet_distinct: "distinct (map fst mp) \<Longrightarrow> distinct (map fst (mapSet k v mp))"
  by (induction mp) (auto simp: mapSet_keys)

lemma mapSet_set: "kv \<in> set (mapSet k v mp) \<Longrightarrow> kv = (k, v) \<or> kv \<in> set mp"
  by (induction mp) (auto split: if_splits)

lemma keyed_mapSet: "keyed key mp \<Longrightarrow> keyed key (mapSet (key x) x mp)"
  by (auto simp: keyed_def mapSet_distinct dest!: mapSet_set)

lemma keyed_keepLonger: "keyed key mp \<Longrightarrow> keyed key (keepLonger key tx mp x)"
  by (auto simp: keepLonger_def keyed_mapSet split: option.splits)

lemma keyed_foldl: "keyed key mp \<Longrightarrow> keyed key (foldl (keepLonger key tx) mp xs)"
  by (induction xs arbitrary: mp) (simp_all add: keyed_keepLonger)

lemma keyed_values: "keyed key mp \<Longrightarrow> map key (map snd mp) = map fst mp"
  by (induction mp) (auto simp: keyed_def)

lemma dedup_distinct:
  "distinct (map key (map snd (foldl (keepLonger key tx) [] xs)))"
proof -
  have k: "keyed key (foldl (keepLonger key tx) [] xs)"
    by (rule keyed_foldl) (simp add: keyed_def)
  have "map key (map snd (foldl (keepLonger key tx) [] xs))
          = map fst (foldl (keepLonger key tx) [] xs)"
    by (rule keyed_values[OF k])
  moreover have "distinct (map fst (foldl (keepLonger key tx) [] xs))"
    using k by (simp add: keyed_def)
  ultimately show ?thesis by (simp only:)
qed

lemma keepLonger_map_of:
  "map_of (keepLonger key tx mp x) k =
     (if key x = k
      then (case map_of mp k of
              None \<Rightarrow> Some x
            | Some e \<Rightarrow> if length (tx x) > length (tx e) then Some x else Some e)
      else map_of mp k)"
  by (auto simp: keepLonger_def mapSet_map_of split: option.splits)

lemma foldl_keepLonger_map_of:
  assumes "\<forall>k v. map_of mp k = Some v \<longrightarrow> winner key tx ys k v"
      and "\<forall>k. map_of mp k = None \<longrightarrow> (\<forall>y \<in> set ys. key y \<noteq> k)"
  shows "(\<forall>k v. map_of (foldl (keepLonger key tx) mp xs) k = Some v \<longrightarrow> winner key tx (ys @ xs) k v)
       \<and> (\<forall>k. map_of (foldl (keepLonger key tx) mp xs) k = None \<longrightarrow> (\<forall>y \<in> set (ys @ xs). key y \<noteq> k))"
  using assms
proof (induction xs arbitrary: mp ys)
  case Nil
  then show ?case by simp
next
  case (Cons x xs)
  let ?mp = "keepLonger key tx mp x"
  have a: "\<forall>k v. map_of ?mp k = Some v \<longrightarrow> winner key tx (ys @ [x]) k v"
    using Cons.prems
    by (auto simp: keepLonger_map_of winner_def split: option.splits if_splits)
       (fastforce+)?
  have b: "\<forall>k. map_of ?mp k = None \<longrightarrow> (\<forall>y \<in> set (ys @ [x]). key y \<noteq> k)"
    using Cons.prems by (auto simp: keepLonger_map_of split: option.splits if_splits)
  from Cons.IH[OF a b] show ?case by simp
qed

lemma dedup_winner:
  assumes "x \<in> set xs" "key x = k"
  shows "\<exists>w. filter (\<lambda>p. key p = k) (map snd (foldl (keepLonger key tx) [] xs)) = [w]
             \<and> winner key tx xs k w"
proof -
  let ?mp = "foldl (keepLonger key tx) [] xs"
  have inv: "(\<forall>k v. map_of ?mp k = Some v \<longrightarrow> winner key tx ([] @ xs) k v)
       \<and> (\<forall>k. map_of ?mp k = None \<longrightarrow> (\<forall>y \<in> set ([] @ xs). key y \<noteq> k))"
    by (rule foldl_keepLonger_map_of) simp_all
  have kd: "keyed key ?mp" by (rule keyed_foldl) (simp add: keyed_def)
  from inv assms obtain w where w: "map_of ?mp k = Some w" by (cases "map_of ?mp k") auto
  then have win: "winner key tx xs k w" using inv by simp
  have "filter (\<lambda>p. key p = k) (map snd mp) = [w]"
    if "keyed key mp" "map_of mp k = Some w" for mp :: "(jsstring \<times> 'a) list"
    using that
  proof (induction mp)
    case Nil
    then show ?case by simp
  next
    case (Cons kv mp)
    obtain k' v' where kv: "kv = (k', v')" by (cases kv)
    have kd': "keyed key mp" using Cons.prems(1) by (auto simp: keyed_def)
    show ?case
    proof (cases "k' = k")
      case True
      then have "v' = w" using Cons.prems(2) kv by simp
      moreover have "key v' = k" using Cons.prems(1) kv True by (auto simp: keyed_def)
      moreover have "k \<notin> fst ` set mp" using Cons.prems(1) kv True by (auto simp: keyed_def)
      then have "filter (\<lambda>p. key p = k) (map snd mp) = []"
        using kd' by (fastforce simp: keyed_def filter_empty_conv image_iff)
      ultimately show ?thesis using kv by simp
    next
      case False
      then have "map_of mp k = Some w" using Cons.prems(2) kv by simp
      moreover have "key v' \<noteq> k" using Cons.prems(1) kv False by (auto simp: keyed_def)
      ultimately show ?thesis using Cons.IH[OF kd'] kv by simp
    qed
  qed
  from this[OF kd w] win show ?thesis by blast
qed

section \<open>The loop over the sections\<close>

lemma keepLonger_values:
  "v \<in> snd ` set (keepLonger key tx mp x) \<Longrightarrow> v = x \<or> v \<in> snd ` set mp"
  by (auto simp: keepLonger_def split: option.splits if_splits dest!: mapSet_set)

lemma foldl_keepLonger_values:
  "v \<in> snd ` set (foldl (keepLonger key tx) mp xs) \<Longrightarrow> v \<in> set xs \<or> v \<in> snd ` set mp"
proof (induction xs arbitrary: mp)
  case Nil
  then show ?case by simp
next
  case (Cons x xs)
  have "v \<in> snd ` set (foldl (keepLonger key tx) (keepLonger key tx mp x) xs)"
    using Cons.prems by simp
  then have "v \<in> set xs \<or> v \<in> snd ` set (keepLonger key tx mp x)"
    by (rule Cons.IH)
  then show ?case
    using keepLonger_values[of v key tx mp x] by auto
qed

lemma dedupProvisions_subset: "set (dedupProvisions ps) \<subseteq> set ps"
  using foldl_keepLonger_values[of _ provision_ref content "[]" ps]
  by (auto simp: dedupProvisions_def)

lemma dedupDefinitions_subset: "set (dedupDefinitions ds) \<subseteq> set ds"
  using foldl_keepLonger_values[of _ "\<lambda>d. toLowerCase (def_term d)" def_definition "[]" ds]
  by (auto simp: dedupDefinitions_def)

lemma dedupProvisions_winner:
  assumes "x \<in> set ps" "provision_ref x = k"
  shows "\<exists>w. filter (\<lambda>p. provision_ref p = k) (dedupProvisions ps) = [w]
             \<and> winner provision_ref content ps k w"
  using dedup_winner[of x ps provision_ref k content] assms by (simp add: dedupProvisions_def)

lemma processSection_sized:
  "\<forall>p \<in> set (provs st). sized p \<Longrightarrow>
     \<forall>p \<in> set (provs (processSection bodyHtml chs start nextStart st)). sized p"
  by (auto simp: processSection_def Let_def sized_def substring_def)

lemma sectionLoop_sized:
  "\<forall>p \<in> set (provs st). sized p \<Longrightarrow>
     \<forall>p \<in> set (provs (sectionLoop bodyHtml chs starts st)). sized p"
proof (induction bodyHtml chs starts st rule: sectionLoop.induct)
  case (1 bodyHtml chs st)
  then show ?case by simp
next
  case (2 bodyHtml chs start st)
  then show ?case using processSection_sized by simp
next
  case (3 bodyHtml chs start nxt others st)
  show ?case
    using "3.IH"[OF processSection_sized[OF "3.prems"]] by simp
qed

lemma parseSections_sized: "\<forall>p \<in> set (provs (parseSections html)). sized p"
  unfolding parseSections_def Let_def by (rule sectionLoop_sized) simp

lemma processSection_short:
  "length (stripHtml (substring bodyHtml (start_index start) nextStart)) \<le> 10 \<Longrightarrow>
     provs (processSection bodyHtml chs start nextStart st) = provs st"
  by (simp add: processSection_def Let_def)

section \<open>Definitions and their provisions\<close>

lemma minlen_lit: "minlen (lit w) = length w"
  by (induction w) simp_all

lemma groupsOf_lit: "groupsOf (lit w) = {}"
  by (induction w) simp_all

lemma js_length: "length (js t) = length t"
  by (simp add: js_def)

lemma reaches_pos: "reaches ic ml r s s' \<Longrightarrow> pos s + minlen r \<le> pos s'"
  using reaches_facts by blast

lemma reaches_len: "reaches ic ml r s s' \<Longrightarrow> pos s' + length (rest s') = pos s + length (rest s)"
  using reaches_facts by blast

lemma reaches_caps:
  "reaches ic ml r s s' \<Longrightarrow> i \<notin> groupsOf r \<Longrightarrow> map_of (caps s') i = map_of (caps s) i"
  using reaches_facts by blast

lemma reaches_take:
  "reaches ic ml r s s' \<Longrightarrow> length (take (pos s' - pos s) (rest s)) = pos s' - pos s"
  using reaches_len[of ic ml r s s'] by simp


lemma defPattern_reaches:
  assumes r: "reaches True False defPattern s e"
  shows "\<exists>t1 t2. map_of (caps e) 1 = Some t1 \<and> map_of (caps e) 2 = Some t2
           \<and> pos s + length t1 + length t2 + 5 \<le> pos e
           \<and> pos e \<le> pos s + length (rest s)"
proof -
  let ?pre = "opt (seqs [chr 40, plus True (Cls False [(97, 122), (48, 57)]), chr 41, Star True space])"
  let ?q1 = "Cls False [(34, 34), (8220, 8220)]"
  let ?name = "plus True (Cls True [(34, 34), (8221, 8221)])"
  let ?q2 = "Cls False [(34, 34), (8221, 8221)]"
  let ?verbs = "alts [lit (js ''refers to''), lit (js ''means''), lit (js ''shall mean''),
             lit (js ''shall refer to''), lit (js ''includes''), lit (js ''has the meaning''),
             lit (js ''is''), lit (js ''are'')]"
  let ?body = "Seq (plus True (Cls True [(59, 59)])) (Cls False [(59, 59), (46, 46)])"
  from r obtain s1 s2 s3 s4 s5 s6 s7 s8 where
    c: "reaches True False ?pre s s1"
       "reaches True False ?q1 s1 s2"
       "reaches True False (Grp 1 ?name) s2 s3"
       "reaches True False ?q2 s3 s4"
       "reaches True False (Star True space) s4 s5"
       "reaches True False ?verbs s5 s6"
       "reaches True False (plus True space) s6 s7"
       "reaches True False (Grp 2 ?body) s7 s8"
       "reaches True False Eps s8 e"
    unfolding defPattern_def seqs.simps by (elim reaches_SeqE) blast
  have e8: "e = s8" using c(9) by (auto elim: reaches.cases)
  from c(3) obtain s2' where g1: "reaches True False ?name s2 s2'"
      "s3 = setCap 1 (take (pos s2' - pos s2) (rest s2)) s2'"
    by (auto elim: reaches_GrpE)
  from c(8) obtain s7' where g2: "reaches True False ?body s7 s7'"
      "s8 = setCap 2 (take (pos s7' - pos s7) (rest s7)) s7'"
    by (auto elim: reaches_GrpE)
  have n0: "pos s \<le> pos s1" using reaches_pos[OF c(1)] by linarith
  have "minlen ?q1 = 1" by simp
  then have n1: "pos s1 + 1 \<le> pos s2" using reaches_pos[OF c(2)] by linarith
  have n2: "pos s2 \<le> pos s2'" using reaches_pos[OF g1(1)] by linarith
  have "minlen ?q2 = 1" by simp
  then have n3: "pos s3 + 1 \<le> pos s4" using reaches_pos[OF c(4)] by linarith
  have n4: "pos s4 \<le> pos s5" using reaches_pos[OF c(5)] by linarith
  have "minlen (plus True space) = 1" by (simp add: plus_def space_def)
  then have n6: "pos s6 + 1 \<le> pos s7" using reaches_pos[OF c(7)] by linarith
  have n7: "pos s7 \<le> pos s7'" using reaches_pos[OF g2(1)] by linarith
  let ?t1 = "take (pos s2' - pos s2) (rest s2)"
  let ?t2 = "take (pos s7' - pos s7) (rest s7)"
  have l1: "length ?t1 = pos s2' - pos s2" by (rule reaches_take[OF g1(1)])
  have l2: "length ?t2 = pos s7' - pos s7" by (rule reaches_take[OF g2(1)])
  have p3: "pos s3 = pos s2'" "rest s3 = rest s2'" using g1(2) by (simp_all add: setCap_def)
  have p8: "pos s8 = pos s7'" "rest s8 = rest s7'" using g2(2) by (simp_all add: setCap_def)
  have "minlen ?verbs = 2" by (simp add: minlen_lit js_length)
  then have n5: "pos s5 + 2 \<le> pos s6" using reaches_pos[OF c(6)] by linarith
  have gv: "groupsOf ?verbs = {}" by (simp add: groupsOf_lit)
  have cap2: "map_of (caps e) 2 = Some ?t2" using e8 g2(2) by (simp add: setCap_def)
  have "map_of (caps s3) 1 = Some ?t1" using g1(2) by (simp add: setCap_def)
  moreover have "map_of (caps s4) 1 = map_of (caps s3) 1"
    by (rule reaches_caps[OF c(4)]) simp
  moreover have "map_of (caps s5) 1 = map_of (caps s4) 1"
    by (rule reaches_caps[OF c(5)]) (simp add: space_def)
  moreover have "map_of (caps s6) 1 = map_of (caps s5) 1"
    by (rule reaches_caps[OF c(6)]) (simp add: groupsOf_lit)
  moreover have "map_of (caps s7) 1 = map_of (caps s6) 1"
    by (rule reaches_caps[OF c(7)]) (simp add: plus_def space_def)
  moreover have "map_of (caps s7') 1 = map_of (caps s7) 1"
    by (rule reaches_caps[OF g2(1)]) (simp add: plus_def)
  moreover have "map_of (caps s8) 1 = map_of (caps s7') 1" using g2(2) by (simp add: setCap_def)
  ultimately have cap1: "map_of (caps e) 1 = Some ?t1" using e8 by simp
  have "pos e + length (rest e) = pos s7' + length (rest s7')" using e8 p8 by simp
  also have "\<dots> = pos s7 + length (rest s7)" by (rule reaches_len[OF g2(1)])
  also have "\<dots> = pos s6 + length (rest s6)" by (rule reaches_len[OF c(7)])
  also have "\<dots> = pos s5 + length (rest s5)" by (rule reaches_len[OF c(6)])
  also have "\<dots> = pos s4 + length (rest s4)" by (rule reaches_len[OF c(5)])
  also have "\<dots> = pos s3 + length (rest s3)" by (rule reaches_len[OF c(4)])
  also have "\<dots> = pos s2' + length (rest s2')" using p3 by simp
  also have "\<dots> = pos s2 + length (rest s2)" by (rule reaches_len[OF g1(1)])
  also have "\<dots> = pos s1 + length (rest s1)" by (rule reaches_len[OF c(2)])
  also have "\<dots> = pos s + length (rest s)" by (rule reaches_len[OF c(1)])
  finally have total: "pos e + length (rest e) = pos s + length (rest s)" .
  have pe: "pos e = pos s7'" using e8 p8(1) by simp
  have "pos s + length ?t1 + length ?t2 + 5 \<le> pos e"
    using n0 n1 n2 n3 n4 n5 n6 n7 l1 l2 p3(1) pe by linarith
  moreover have "pos e \<le> pos s + length (rest s)"
    using total by linarith
  ultimately show ?thesis using cap1 cap2 by blast
qed


lemma map_filter_member:
  "y \<in> set (List.map_filter f xs) \<longleftrightarrow> (\<exists>x \<in> set xs. f x = Some y)"
  by (induction xs) (auto split: option.splits)

lemma trim_length: "length (trim t) \<le> length t"
proof -
  have "length (trim t) \<le> length (dropWhile isSpace t)"
    unfolding trim_def using length_dropWhile_le[of isSpace "rev (dropWhile isSpace t)"] by simp
  also have "\<dots> \<le> length t" by (rule length_dropWhile_le)
  finally show ?thesis .
qed

lemma replaceFirst_empty_length: "length (replaceFirst r ic ml [] t) \<le> length t"
  by (auto simp: replaceFirst_def min_def split: option.splits)

lemma matchAt_defPattern:
  assumes "matchAt defPattern True False p pv cs = Some mt" "definitionOf ref mt = Some d"
  shows "12 \<le> length cs"
proof -
  from assms(1) obtain e where e: "m defPattern True False Some (MState p pv cs []) = Some e"
      "groups mt = caps e"
    by (auto simp: matchAt_def split: option.splits)
  from m_sound[OF e(1)] have r: "reaches True False defPattern (MState p pv cs []) e" by simp
  from defPattern_reaches[OF r] obtain t1 t2 where
    t: "map_of (caps e) 1 = Some t1" "map_of (caps e) 2 = Some t2"
       "p + length t1 + length t2 + 5 \<le> pos e" "pos e \<le> p + length cs"
    by auto
  have g: "grpText mt 1 = t1" "grpText mt 2 = t2"
    using t(1,2) e(2) by (simp_all add: grpText_def grp_def)
  from assms(2) have "0 < length (trim t1)"
      "5 < length (trim (replaceFirst finalStop False False [] t2))"
    unfolding definitionOf_def Let_def g by (auto split: if_splits)
  then have "1 \<le> length t1 \<and> 6 \<le> length t2"
    using trim_length[of t1] trim_length[of "replaceFirst finalStop False False [] t2"]
      replaceFirst_empty_length[of finalStop False False t2]
    by linarith
  then show ?thesis using t(3,4) by linarith
qed

lemma execAllFrom_matchAt:
  "mt \<in> set (execAllFrom cs r ic ml skip p pv) \<Longrightarrow>
     \<exists>p' pv' cs'. matchAt r ic ml p' pv' cs' = Some mt \<and> length cs' \<le> length cs"
proof (induction cs arbitrary: skip p pv)
  case Nil
  then have "matchAt r ic ml p pv [] = Some mt"
    by (cases "skip = 0"; cases "matchAt r ic ml p pv []") simp_all
  then show ?case by (metis order_refl)
next
  case (Cons c cs)
  show ?case
  proof (cases "skip = 0")
    case False
    then have "mt \<in> set (execAllFrom cs r ic ml (skip - 1) (Suc p) (Some c))"
      using Cons.prems by simp
    from Cons.IH[OF this] show ?thesis by fastforce
  next
    case True
    show ?thesis
    proof (cases "matchAt r ic ml p pv (c # cs)")
      case None
      then have "mt \<in> set (execAllFrom cs r ic ml 0 (Suc p) (Some c))"
        using Cons.prems True by simp
      from Cons.IH[OF this] show ?thesis by fastforce
    next
      case (Some mt')
      then have "mt = mt' \<or> mt \<in> set (execAllFrom cs r ic ml (length (matched mt') - 1) (Suc p) (Some c))"
        using Cons.prems True by simp
      then show ?thesis
      proof
        assume "mt = mt'"
        then show ?thesis using Some by (metis order_refl)
      next
        assume "mt \<in> set (execAllFrom cs r ic ml (length (matched mt') - 1) (Suc p) (Some c))"
        from Cons.IH[OF this] show ?thesis by fastforce
      qed
    qed
  qed
qed

lemma extractDefinitions_new:
  assumes "d \<in> set (extractDefinitions t ref ds)" "d \<notin> set ds"
  shows "source_provision d = Some ref \<and> 12 \<le> length t"
proof -
  from assms obtain mt where mt: "mt \<in> set (execAll defPattern True False t)"
      "definitionOf ref mt = Some d"
    by (auto simp: extractDefinitions_def map_filter_member)
  from execAllFrom_matchAt[OF mt(1)[unfolded execAll_def]] obtain p pv cs where
    "matchAt defPattern True False p pv cs = Some mt" "length cs \<le> length t" by blast
  then have "12 \<le> length t" using matchAt_defPattern[OF _ mt(2)] by fastforce
  moreover have "source_provision d = Some ref"
    using mt(2) by (auto simp: definitionOf_def Let_def split: if_splits)
  ultimately show ?thesis by simp
qed

lemma processSection_resolved:
  assumes "resolved st"
  shows "resolved (processSection bodyHtml chs start nextStart st)"
  unfolding resolved_def
proof
  fix d
  let ?st' = "processSection bodyHtml chs start nextStart st"
  let ?stripped = "stripHtml (substring bodyHtml (start_index start) nextStart)"
  let ?ref = "js ''sec'' @ toLowerCase (sectionNum start)"
  assume d: "d \<in> set (defs ?st')"
  have keep: "set (provs st) \<subseteq> set (provs ?st')"
    by (auto simp: processSection_def Let_def)
  show "\<exists>p \<in> set (provs ?st'). source_provision d = Some (provision_ref p)"
  proof (cases "d \<in> set (defs st)")
    case True
    then show ?thesis using assms keep by (fastforce simp: resolved_def)
  next
    case False
    then have "d \<in> set (extractDefinitions ?stripped ?ref (defs st))"
      using d by (auto simp: processSection_def Let_def split: if_splits)
    from extractDefinitions_new[OF this False]
    have src: "source_provision d = Some ?ref" and long: "12 \<le> length ?stripped" by simp_all
    from long have "\<exists>p \<in> set (provs ?st'). provision_ref p = ?ref"
      by (simp add: processSection_def Let_def)
    then show ?thesis using src by metis
  qed
qed

lemma sectionLoop_resolved:
  "resolved st \<Longrightarrow> resolved (sectionLoop bodyHtml chs starts st)"
proof (induction bodyHtml chs starts st rule: sectionLoop.induct)
  case (1 bodyHtml chs st)
  then show ?case by simp
next
  case (2 bodyHtml chs start st)
  then show ?case by (simp add: processSection_resolved)
next
  case (3 bodyHtml chs start nxt others st)
  show ?case using "3.IH"[OF processSection_resolved[OF "3.prems"]] by simp
qed

lemma parseSections_resolved: "resolved (parseSections html)"
  unfolding parseSections_def Let_def by (rule sectionLoop_resolved) (simp add: resolved_def)

text \<open>No match of the patterns scanned in a loop is empty, so every loop of the source
  over \<open>exec\<close> moves on.\<close>

lemma matchAt_minlen:
  assumes "matchAt r ic ml p pv cs = Some mt"
  shows "minlen r \<le> length (matched mt)"
proof -
  from assms obtain e where e: "m r ic ml Some (MState p pv cs []) = Some e"
      "matched mt = take (pos e - p) cs"
    by (auto simp: matchAt_def split: option.splits)
  from m_sound[OF e(1)] have r: "reaches ic ml r (MState p pv cs []) e" by simp
  from reaches_pos[OF r] reaches_take[OF r] e(2) show ?thesis by simp
qed

lemma pattern_minlen:
  "1 \<le> minlen sectionPattern" "1 \<le> minlen chapterPattern" "1 \<le> minlen defPattern"
  "1 \<le> minlen rowRe"
  by (simp_all add: sectionPattern_def chapterPattern_def defPattern_def rowRe_def minlen_lit
      js_length plus_def chr_def)

section \<open>The census: first occurrence kept\<close>

declare digitsOf.simps [simp del]

lemma parseInt10_digitsOf:
  "foldl (\<lambda>a d. a * 10 + (d - 48)) 0 (digitsOf n) = n"
proof (induction n rule: digitsOf.induct)
  case (1 n)
  show ?case
  proof (cases "n < 10")
    case True
    then show ?thesis by (subst digitsOf.simps) simp
  next
    case False
    then have "foldl (\<lambda>a d. a * 10 + (d - 48)) 0 (digitsOf n)
                 = foldl (\<lambda>a d. a * 10 + (d - 48)) 0 (digitsOf (n div 10)) * 10 + n mod 10"
      by (subst digitsOf.simps) simp
    then show ?thesis using "1.IH"[OF False] by simp
  qed
qed

lemma digitsOf_inj: "digitsOf a = digitsOf b \<Longrightarrow> a = b"
  by (metis parseInt10_digitsOf)

lemma raToId_inj: "raToId a = raToId b \<longleftrightarrow> a = b"
  by (auto simp: raToId_def dest: digitsOf_inj)

lemma raToId_special: "raToId n \<notin> law_id ` set specialEntries"
  by (simp add: raToId_def specialEntries_def js_def)

lemma indexRow_indexed: "indexed acc \<Longrightarrow> indexed (indexRow acc mt)"
  by (auto simp: indexed_def indexRow_def lawOfRow_def split: option.splits)

lemma foldl_indexRow_indexed: "indexed acc \<Longrightarrow> indexed (foldl indexRow acc rows)"
  by (induction rows arbitrary: acc) (simp_all add: indexRow_indexed)

lemma indexRow_keeps: "l \<in> set (fst acc) \<Longrightarrow> l \<in> set (fst (indexRow acc mt))"
  by (auto simp: indexRow_def split: option.splits)

lemma foldl_indexRow_keeps: "l \<in> set (fst acc) \<Longrightarrow> l \<in> set (fst (foldl indexRow acc rows))"
  by (induction rows arbitrary: acc) (simp_all add: indexRow_keeps)

lemma indexRow_skip:
  "parseInt10 (grpText mt 4) \<noteq> Some n \<Longrightarrow> raToId n \<notin> snd acc \<Longrightarrow> raToId n \<notin> snd (indexRow acc mt)"
  by (auto simp: indexRow_def raToId_inj split: option.splits)

lemma foldl_indexRow_first:
  assumes "i < length rows"
      and "parseInt10 (grpText (rows ! i) 4) = Some n"
      and "parseInt10 (grpText (rows ! i) 3) = Some y"
      and "\<forall>k < i. parseInt10 (grpText (rows ! k) 4) \<noteq> Some n"
      and "raToId n \<notin> snd acc"
  shows "lawOfRow (rows ! i) n y \<in> set (fst (foldl indexRow acc rows))"
  using assms
proof (induction rows arbitrary: acc i)
  case Nil
  then show ?case by simp
next
  case (Cons r rows)
  show ?case
  proof (cases i)
    case 0
    then have "lawOfRow r n y \<in> set (fst (indexRow acc r))"
      using Cons.prems by (simp add: indexRow_def)
    then show ?thesis using 0 by (simp add: foldl_indexRow_keeps)
  next
    case (Suc i')
    have "parseInt10 (grpText r 4) \<noteq> Some n" using Cons.prems(4) Suc by auto
    then have fresh: "raToId n \<notin> snd (indexRow acc r)"
      using Cons.prems(5) by (rule indexRow_skip)
    have "lawOfRow (rows ! i') n y \<in> set (fst (foldl indexRow (indexRow acc r) rows))"
    proof (rule Cons.IH[OF _ _ _ _ fresh])
      show "i' < length rows" using Cons.prems(1) Suc by simp
      show "parseInt10 (grpText (rows ! i') 4) = Some n" using Cons.prems(2) Suc by simp
      show "parseInt10 (grpText (rows ! i') 3) = Some y" using Cons.prems(3) Suc by simp
      show "\<forall>k<i'. parseInt10 (grpText (rows ! k) 4) \<noteq> Some n"
        using Cons.prems(4) Suc by auto
    qed
    then show ?thesis using Suc by simp
  qed
qed

lemma filter_single:
  assumes "distinct (map f xs)" "w \<in> set xs"
  shows "filter (\<lambda>x. f x = f w) xs = [w]"
  using assms
proof (induction xs)
  case Nil
  then show ?case by simp
next
  case (Cons x xs)
  show ?case
  proof (cases "x = w")
    case True
    then have "filter (\<lambda>x. f x = f w) xs = []"
      using Cons.prems(1) by (auto simp: filter_empty_conv image_iff)
    then show ?thesis using True by simp
  next
    case False
    then have "f x \<noteq> f w" using Cons.prems by (auto simp: image_iff)
    then show ?thesis using Cons False by auto
  qed
qed

lemma parseRows_first:
  assumes "i < length rows"
      and "parseInt10 (grpText (rows ! i) 4) = Some n"
      and "parseInt10 (grpText (rows ! i) 3) = Some y"
      and "\<forall>k < i. parseInt10 (grpText (rows ! k) 4) \<noteq> Some n"
  shows "filter (\<lambda>l. law_id l = raToId n) (parseRows rows) = [lawOfRow (rows ! i) n y]"
proof -
  let ?w = "lawOfRow (rows ! i) n y"
  have ix: "indexed (foldl indexRow ([], {}) rows)"
    by (rule foldl_indexRow_indexed) (simp add: indexed_def)
  have w: "?w \<in> set (parseRows rows)"
    unfolding parseRows_def by (rule foldl_indexRow_first[OF assms]) simp
  have "filter (\<lambda>l. law_id l = law_id ?w) (parseRows rows) = [?w]"
    by (rule filter_single[OF _ w]) (use ix in \<open>simp add: indexed_def parseRows_def\<close>)
  then show ?thesis by (simp add: lawOfRow_def)
qed

lemma insertSorted_filter:
  "length (filter P (insertSorted cmp x xs)) = length (filter P (x # xs))"
  by (induction xs) auto

lemma insertSorted_set: "set (insertSorted cmp x xs) = insert x (set xs)"
  by (induction xs) auto

lemma sortWith_filter: "length (filter P (sortWith cmp xs)) = length (filter P xs)"
  unfolding sortWith_def
  by (induction xs) (simp_all add: insertSorted_filter)

lemma sortWith_set: "set (sortWith cmp xs) = set xs"
  unfolding sortWith_def by (induction xs) (simp_all add: insertSorted_set)

lemma filter_one:
  "length (filter P xs) = 1 \<Longrightarrow> w \<in> set xs \<Longrightarrow> P w \<Longrightarrow> filter P xs = [w]"
proof -
  assume a: "length (filter P xs) = 1" "w \<in> set xs" "P w"
  then obtain v where v: "filter P xs = [v]" by (cases "filter P xs") auto
  have "w \<in> set (filter P xs)" using a by simp
  then show ?thesis using v by simp
qed

lemma census_first:
  assumes "filter (\<lambda>l. law_id l = raToId n) page = [w]"
  shows "filter (\<lambda>l. law_id l = raToId n) (sortWith compareLaws (page @ specialEntries)) = [w]"
proof (rule filter_one)
  have "filter (\<lambda>l. law_id l = raToId n) specialEntries = []"
    using raToId_special[of n] by (auto simp: filter_empty_conv image_iff)
  then show "length (filter (\<lambda>l. law_id l = raToId n) (sortWith compareLaws (page @ specialEntries))) = 1"
    using assms by (simp add: sortWith_filter)
  have "w \<in> set (filter (\<lambda>l. law_id l = raToId n) page)" using assms by simp
  then show "w \<in> set (sortWith compareLaws (page @ specialEntries))" "law_id w = raToId n"
    by (simp_all add: sortWith_set)
qed

lemma parseRows_republic:
  "l \<in> set (parseRows rows) \<Longrightarrow> law_id l = raToId (raNumber l) \<and> category l = cat_republic_act"
proof -
  assume l: "l \<in> set (parseRows rows)"
  have "indexed (foldl indexRow ([], {}) rows)"
    by (rule foldl_indexRow_indexed) (simp add: indexed_def)
  then show ?thesis using l by (simp add: indexed_def parseRows_def)
qed

lemma special_not_republic: "l \<in> set specialEntries \<Longrightarrow> category l \<noteq> cat_republic_act"
  by (auto simp: specialEntries_def)

lemma census_by_number:
  "filter (\<lambda>l. category l = cat_republic_act \<and> raNumber l = n)
       (sortWith compareLaws (parseRows rows @ specialEntries))
     = filter (\<lambda>l. law_id l = raToId n) (sortWith compareLaws (parseRows rows @ specialEntries))"
proof (rule filter_cong[OF refl])
  fix l
  assume "l \<in> set (sortWith compareLaws (parseRows rows @ specialEntries))"
  then consider "l \<in> set (parseRows rows)" | "l \<in> set specialEntries"
    by (auto simp: sortWith_set)
  then show "(category l = cat_republic_act \<and> raNumber l = n) = (law_id l = raToId n)"
  proof cases
    case 1
    then show ?thesis using parseRows_republic[OF 1] by (auto simp: raToId_inj)
  next
    case 2
    then show ?thesis using special_not_republic[OF 2] raToId_special[of n] by (auto simp: image_iff)
  qed
qed
section \<open>The pipeline: one record for every entry of the work list\<close>

lemma writeSeed_fields:
  "emitted (writeSeed act r st) = emitted st @ [r]"
  "seedFiles (writeSeed act r st) = (seedFiles st)(entry_id act \<mapsto> r)"
  by (simp_all add: writeSeed_def)

lemma storeFallback_fields:
  "emitted (storeFallback act why st) = emitted st @ [createFallbackSeed act]"
  "seedFiles (storeFallback act why st) = (seedFiles st)(entry_id act \<mapsto> createFallbackSeed act)"
  by (simp_all add: storeFallback_def writeSeed_def Let_def)

lemma parseAndStore_fields:
  "emitted (parseAndStore act html st) = emitted st @ [parsePhilippineHtml html act]"
  "seedFiles (parseAndStore act html st)
     = (seedFiles st)(entry_id act \<mapsto> parsePhilippineHtml html act)"
  by (simp_all add: parseAndStore_def writeSeed_def Let_def)

lemma useCachedSeed_fields:
  "emitted (useCachedSeed act existing st) = emitted st"
  "seedFiles (useCachedSeed act existing st) = seedFiles st"
  by (simp_all add: useCachedSeed_def)

lemma parsed_id: "act_id (parsePhilippineHtml html act) = entry_id act"
  by (simp add: parsePhilippineHtml_def Let_def)

lemma fallback_id: "act_id (createFallbackSeed act) = entry_id act"
  by (simp add: createFallbackSeed_def)

text \<open>One step of the loop of a full run writes one record, for the entry at hand.\<close>

lemma processAct_full:
  "\<exists>r. emitted (processAct env False st act) = emitted st @ [r] \<and> act_id r = entry_id act"
proof -
  obtain outcome net' where f: "fetchWithRateLimit env (entry_url act) 3 (net st) = (outcome, net')"
    by (cases "fetchWithRateLimit env (entry_url act) 3 (net st)")
  show ?thesis
  proof (cases outcome)
    case (Inl e)
    then show ?thesis
      using f by (simp add: processAct_def storeFallback_fields fallback_id)
  next
    case (Inr result)
    then show ?thesis
      using f by (simp add: processAct_def storeFallback_fields parseAndStore_fields
          fallback_id parsed_id)
  qed
qed

lemma fetchAndParseActs_full:
  "\<exists>new. emitted (fetchAndParseActs env acts False st) = emitted st @ new
          \<and> map act_id new = map entry_id acts"
  unfolding fetchAndParseActs_def
proof (induction acts arbitrary: st)
  case Nil
  then show ?case by simp
next
  case (Cons act acts)
  from processAct_full[of env st act] obtain r where
    r: "emitted (processAct env False st act) = emitted st @ [r]" "act_id r = entry_id act"
    by blast
  from Cons.IH[of "processAct env False st act"] obtain new where
    new: "emitted (foldl (processAct env False) (processAct env False st act) acts)
            = emitted (processAct env False st act) @ new"
         "map act_id new = map entry_id acts"
    by blast
  show ?case
    by (rule exI[of _ "r # new"]) (simp add: r new)
qed

lemma processAct_seed: "seedFiles (processAct env skipFetch st act) (entry_id act) \<noteq> None"
proof (cases "skipFetch \<and> seedFiles st (entry_id act) \<noteq> None")
  case True
  then show ?thesis by (auto simp: processAct_def useCachedSeed_fields)
next
  case False
  obtain outcome net' where f: "fetchWithRateLimit env (entry_url act) 3 (net st) = (outcome, net')"
    by (cases "fetchWithRateLimit env (entry_url act) 3 (net st)")
  from False f show ?thesis
    by (cases outcome; cases "if skipFetch then sourceFiles st (entry_id act) else None")
       (auto simp: processAct_def storeFallback_fields parseAndStore_fields)
qed

lemma processAct_seed_mono:
  "seedFiles st k \<noteq> None \<Longrightarrow> seedFiles (processAct env skipFetch st act) k \<noteq> None"
proof -
  assume a: "seedFiles st k \<noteq> None"
  obtain outcome net' where f: "fetchWithRateLimit env (entry_url act) 3 (net st) = (outcome, net')"
    by (cases "fetchWithRateLimit env (entry_url act) 3 (net st)")
  from a f show ?thesis
    by (cases outcome; cases "if skipFetch then sourceFiles st (entry_id act) else None";
        cases "if skipFetch then seedFiles st (entry_id act) else None")
       (auto simp: processAct_def storeFallback_fields parseAndStore_fields useCachedSeed_fields)
qed

lemma foldl_processAct_seed_mono:
  "seedFiles st k \<noteq> None \<Longrightarrow> seedFiles (foldl (processAct env skipFetch) st acts) k \<noteq> None"
proof (induction acts arbitrary: st)
  case Nil
  then show ?case by simp
next
  case (Cons a acts)
  have "seedFiles (processAct env skipFetch st a) k \<noteq> None"
    by (rule processAct_seed_mono[OF Cons.prems])
  then have "seedFiles (foldl (processAct env skipFetch) (processAct env skipFetch st a) acts) k \<noteq> None"
    by (rule Cons.IH)
  then show ?case by simp
qed

lemma fetchAndParseActs_seed:
  "act \<in> set acts \<Longrightarrow> seedFiles (fetchAndParseActs env acts skipFetch st) (entry_id act) \<noteq> None"
  unfolding fetchAndParseActs_def
proof (induction acts arbitrary: st)
  case Nil
  then show ?case by simp
next
  case (Cons a acts)
  show ?case
  proof (cases "act = a")
    case True
    then show ?thesis
      using foldl_processAct_seed_mono[OF processAct_seed[of env skipFetch st a]] by simp
  next
    case False
    then show ?thesis using Cons by simp
  qed
qed

lemma key_ids_distinct: "distinct (map entry_id KEY_PHILIPPINE_ACTS)"
  by (simp add: KEY_PHILIPPINE_ACTS_def js_def)

lemma worklist_distinct: "distinct (map entry_id (worklist args))"
proof -
  have "distinct (map entry_id (take n KEY_PHILIPPINE_ACTS))" for n
    using key_ids_distinct by (simp add: take_map[symmetric] distinct_take)
  then show ?thesis
    using key_ids_distinct by (simp add: worklist_def slice0_def split: option.splits)
qed

lemma count_distinct:
  "distinct (map f xs) \<Longrightarrow> x \<in> set xs \<Longrightarrow> length (filter (\<lambda>k. k = f x) (map f xs)) = 1"
proof (induction xs)
  case Nil
  then show ?case by simp
next
  case (Cons y ys)
  show ?case
  proof (cases "x = y")
    case True
    then have "filter (\<lambda>k. k = f x) (map f ys) = []"
      using Cons.prems(1) by (fastforce simp: filter_empty_conv image_iff)
    then show ?thesis using True by simp
  next
    case False
    then have "f y \<noteq> f x" using Cons.prems by (auto simp: image_iff)
    then show ?thesis using Cons False by simp
  qed
qed

section \<open>Running the model on the samples\<close>

text \<open>
  The matcher is run inside the logic by rewriting with its defining equations alone.
  The first lemma is the table of the code units of the printable characters.
\<close>

lemma unit_table:
  "of_char (CHR '' '') = (32::nat)"
  "of_char (CHR ''!'') = (33::nat)"
  "of_char (CHR ''#'') = (35::nat)"
  "of_char (CHR ''$'') = (36::nat)"
  "of_char (CHR ''%'') = (37::nat)"
  "of_char (CHR ''&'') = (38::nat)"
  "of_char (CHR ''('') = (40::nat)"
  "of_char (CHR '')'') = (41::nat)"
  "of_char (CHR ''*'') = (42::nat)"
  "of_char (CHR ''+'') = (43::nat)"
  "of_char (CHR '','') = (44::nat)"
  "of_char (CHR ''-'') = (45::nat)"
  "of_char (CHR ''.'') = (46::nat)"
  "of_char (CHR ''/'') = (47::nat)"
  "of_char (CHR ''0'') = (48::nat)"
  "of_char (CHR ''1'') = (49::nat)"
  "of_char (CHR ''2'') = (50::nat)"
  "of_char (CHR ''3'') = (51::nat)"
  "of_char (CHR ''4'') = (52::nat)"
  "of_char (CHR ''5'') = (53::nat)"
  "of_char (CHR ''6'') = (54::nat)"
  "of_char (CHR ''7'') = (55::nat)"
  "of_char (CHR ''8'') = (56::nat)"
  "of_char (CHR ''9'') = (57::nat)"
  "of_char (CHR '':'') = (58::nat)"
  "of_char (CHR '';'') = (59::nat)"
  "of_char (CHR ''<'') = (60::nat)"
  "of_char (CHR ''='') = (61::nat)"
  "of_char (CHR ''>'') = (62::nat)"
  "of_char (CHR ''?'') = (63::nat)"
  "of_char (CHR ''@'') = (64::nat)"
  "of_char (CHR ''A'') = (65::nat)"
  "of_char (CHR ''B'') = (66::nat)"
  "of_char (CHR ''C'') = (67::nat)"
  "of_char (CHR ''D'') = (68::nat)"
  "of_char (CHR ''E'') = (69::nat)"
  "of_char (CHR ''F'') = (70::nat)"
  "of_char (CHR ''G'') = (71::nat)"
  "of_char (CHR ''H'') = (72::nat)"
  "of_char (CHR ''I'') = (73::nat)"
  "of_char (CHR ''J'') = (74::nat)"
  "of_char (CHR ''K'') = (75::nat)"
  "of_char (CHR ''L'') = (76::nat)"
  "of_char (CHR ''M'') = (77::nat)"
  "of_char (CHR ''N'') = (78::nat)"
  "of_char (CHR ''O'') = (79::nat)"
  "of_char (CHR ''P'') = (80::nat)"
  "of_char (CHR ''Q'') = (81::nat)"
  "of_char (CHR ''R'') = (82::nat)"
  "of_char (CHR ''S'') = (83::nat)"
  "of_char (CHR ''T'') = (84::nat)"
  "of_char (CHR ''U'') = (85::nat)"
  "of_char (CHR ''V'') = (86::nat)"
  "of_char (CHR ''W'') = (87::nat)"
  "of_char (CHR ''X'') = (88::nat)"
  "of_char (CHR ''Y'') = (89::nat)"
  "of_char (CHR ''Z'') = (90::nat)"
  "of_char (CHR ''['') = (91::nat)"
  "of_char (CHR '']'') = (93::nat)"
  "of_char (CHR ''^'') = (94::nat)"
  "of_char (CHR ''_'') = (95::nat)"
  "of_char (CHR ''a'') = (97::nat)"
  "of_char (CHR ''b'') = (98::nat)"
  "of_char (CHR ''c'') = (99::nat)"
  "of_char (CHR ''d'') = (100::nat)"
  "of_char (CHR ''e'') = (101::nat)"
  "of_char (CHR ''f'') = (102::nat)"
  "of_char (CHR ''g'') = (103::nat)"
  "of_char (CHR ''h'') = (104::nat)"
  "of_char (CHR ''i'') = (105::nat)"
  "of_char (CHR ''j'') = (106::nat)"
  "of_char (CHR ''k'') = (107::nat)"
  "of_char (CHR ''l'') = (108::nat)"
  "of_char (CHR ''m'') = (109::nat)"
  "of_char (CHR ''n'') = (110::nat)"
  "of_char (CHR ''o'') = (111::nat)"
  "of_char (CHR ''p'') = (112::nat)"
  "of_char (CHR ''q'') = (113::nat)"
  "of_char (CHR ''r'') = (114::nat)"
  "of_char (CHR ''s'') = (115::nat)"
  "of_char (CHR ''t'') = (116::nat)"
  "of_char (CHR ''u'') = (117::nat)"
  "of_char (CHR ''v'') = (118::nat)"
  "of_char (CHR ''w'') = (119::nat)"
  "of_char (CHR ''x'') = (120::nat)"
  "of_char (CHR ''y'') = (121::nat)"
  "of_char (CHR ''z'') = (122::nat)"
  "of_char (CHR ''{'') = (123::nat)"
  "of_char (CHR ''|'') = (124::nat)"
  "of_char (CHR ''}'') = (125::nat)"
  "of_char (CHR ''~'') = (126::nat)"
  by simp_all

lemmas unit_ev = js_def list.map unit_table append.simps
lemmas nat_ev = rel_simps arith_simps diff_nat_numeral nat_numeral nat_neg_numeral nat_0
  diff_Suc_Suc diff_zero diff_0_eq_0 diff_Suc_1 Suc_less_eq Suc_le_mono zero_less_Suc not_less_zero le0 nat.inject
  nat.distinct add_Suc add_0 add_Suc_right add_0_right simp_thms if_True if_False
lemmas list_ev = list.case list.inject list.distinct take_Suc_Cons take_0 take.simps(1) drop_Suc_Cons drop_0 drop.simps(1)
  list.size length_Cons append.simps rev.simps dropWhile.simps foldl.simps option.case option.inject option.distinct
  prod.case prod.inject
lemmas pat_ev = plus_def space_def digit_def chr_def opt_def anyUnit_def notGt_def wsRanges_def wordRanges_def wordUnit_def lit.simps seqs.simps alts.simps
lemmas re_ev = exec_def matchAt_def clsMatch_def lowerUnit_def upperUnit_def isUpperAscii_def isLowerAscii_def setCap_def
  replaceAll_def execAll_def replaceFirst_def splitFirst_def atBol_def atEol_def atWordB_def isLineTerminator_def isWordChar_def isSpace_def
  m.simps star.simps execAllFrom.simps replaceAllFrom.simps searchFrom.simps inRanges.simps
  mstate.sel rmatch.sel rmatch.inject trim_def
lemmas ev = unit_ev nat_ev list_ev pat_ev re_ev
lemmas strip_ev = stripHtml_def stripSteps_def applyStep_def

lemma sample_strip: "stripHtml sampleHtml = sampleHtml"
  by (simp only: sampleHtml_def sampleAfter_def strip_ev ev cong: if_weak_cong option.case_cong_weak list.case_cong_weak)

lemma sampleAfter_strip: "stripHtml sampleAfter = sampleAfter"
  by (simp only: sampleAfter_def strip_ev ev cong: if_weak_cong option.case_cong_weak list.case_cong_weak)

lemma sample_body: "exec bodyPattern True False sampleHtml = None"
  by (simp only: sampleHtml_def sampleAfter_def bodyPattern_def ev cong: if_weak_cong option.case_cong_weak list.case_cong_weak)

lemma sample_chapters: "execAll chapterPattern True False sampleHtml = []"
  by (simp only: sampleHtml_def sampleAfter_def chapterPattern_def tags_def ev cong: if_weak_cong option.case_cong_weak list.case_cong_weak)


lemma js_empty: "js t = [] \<longleftrightarrow> t = []"
  by (simp add: js_def)

lemmas weak_congs = if_weak_cong option.case_cong_weak list.case_cong_weak

lemma sample_sections:
  "execAll sectionPattern True False sampleHtml = [RMatch 0 (js ''Section 3. '') [(1, js ''3'')]]"
  by (simp only: sampleHtml_def sampleAfter_def sectionPattern_def tags_def sectionNumber_def ev
      cong: weak_congs)

lemma sample_title_match:
  "exec titlePattern False False sampleAfter
     = Some (RMatch 0 (js ''Definition of Terms.'') [(1, js ''Definition of Terms'')])"
  by (simp only: sampleAfter_def titlePattern_def ev cong: weak_congs)

lemma sample_title_dash:
  "replaceFirst leadingDash False False [] (js ''Definition of Terms'') = js ''Definition of Terms''"
  by (simp only: leadingDash_def dashes_def ev cong: weak_congs)

lemma sample_title_junk:
  "replaceFirst leadingJunk False False [] (js ''Definition of Terms'') = js ''Definition of Terms''"
  by (simp only: leadingJunk_def ev cong: weak_congs)

lemma sample_title_trim: "trim (js ''Definition of Terms'') = js ''Definition of Terms''"
  by (simp only: ev cong: weak_congs)

lemma sample_line: "takeWhile (\<lambda>c. c \<noteq> 10) sampleAfter = sampleAfter"
  by (simp only: sampleAfter_def takeWhile.simps ev cong: weak_congs)

lemma sample_title: "sectionTitle sampleAfter = js ''Definition of Terms''"
  by (simp add: sectionTitle_def Let_def sample_line sampleAfter_strip sample_title_match
      grpText_def grp_def sample_title_dash sample_title_trim sample_title_junk)

lemma sample_mentions: "mentionsDefinitions (js ''Definition of Terms'')"
  by (simp only: mentionsDefinitions_def toLowerCase_def includesStr.simps isPrefixOf.simps ev
      cong: weak_congs)

lemma sample_defs:
  "execAll defPattern True False sampleHtml
     = [RMatch 34 (js ''(a) '' @ [34] @ js ''Personal information'' @ [34]
                    @ js '' refers to any information...;'')
          [(2, js ''any information...;''), (1, js ''Personal information'')]]"
  by (simp only: sampleHtml_def sampleAfter_def defPattern_def ev cong: weak_congs; simp)

lemma sample_def_stop:
  "replaceFirst finalStop False False [] (js ''any information...;'') = js ''any information...''"
  by (simp only: finalStop_def ev cong: weak_congs)

lemma sample_def_trims:
  "trim (js ''any information...'') = js ''any information...''"
  "trim (js ''Personal information'') = js ''Personal information''"
  "trim (js ''3'') = js ''3''"
  by (simp_all only: ev cong: weak_congs)

lemma sample_extract:
  "extractDefinitions sampleHtml (js ''sec3'') []
     = [\<lparr> def_term = js ''Personal information'', def_definition = js ''any information...'',
          source_provision = Some (js ''sec3'') \<rparr>]"
  by (simp add: extractDefinitions_def sample_defs definitionOf_def Let_def grpText_def grp_def
      sample_def_stop sample_def_trims substring_def js_length js_empty)

lemma sample_starts:
  "sectionStarts sampleHtml = [\<lparr> start_index = 0, sectionNum = js ''3'', matchLength = 11 \<rparr>]"
  by (simp add: sectionStarts_def sample_sections sectionStartOf_def Let_def grp_def
      sample_def_trims js_length js_empty)


lemma sample_length: "length sampleHtml = 90"
  by (simp add: sampleHtml_def sampleAfter_def js_length)

lemma sample_after: "drop 11 sampleHtml = sampleAfter"
  by (simp add: sampleHtml_def js_length)

lemma sample_ref: "js ''sec'' @ toLowerCase (js ''3'') = js ''sec3''"
  by (simp only: toLowerCase_def ev cong: weak_congs)

lemma sample_parseSections:
  "parseSections sampleHtml
     = \<lparr> currentChapter = [], provs = [sampleProvision], defs = [sampleDefinition] \<rparr>"
proof -
  have b: "bodyHtmlOf sampleHtml = sampleHtml"
    by (simp add: bodyHtmlOf_def sample_body)
  have c: "chapters sampleHtml = []"
    by (simp add: chapters_def sample_chapters)
  have s: "substring sampleHtml 0 90 = sampleHtml" "substring sampleHtml 0 12000 = sampleHtml"
    by (simp_all add: substring_def sample_length)
  show ?thesis
    unfolding parseSections_def Let_def b c sample_starts
    by (simp add: processSection_def Let_def updateChapter_def sample_length s sample_after
        sample_title sample_strip sample_mentions sample_ref sample_extract
        sampleProvision_def sampleDefinition_def)
qed

lemma sample_parse:
  "provisions (parsePhilippineHtml sampleHtml act) = [sampleProvision]"
  "definitions (parsePhilippineHtml sampleHtml act) = [sampleDefinition]"
  by (simp_all add: parsePhilippineHtml_def Let_def sample_parseSections dedupProvisions_def
      dedupDefinitions_def keepLonger_def)

lemma twice_sections:
  "execAll sectionPattern True False twiceHtml
     = [RMatch 0 (js ''Sec. 1. '') [(1, js ''1'')], RMatch 20 ([10] @ js ''Sec. 1. '') [(1, js ''1'')]]"
  by (simp only: twiceHtml_def twiceFirst_def twiceSecond_def sectionPattern_def tags_def
      sectionNumber_def ev cong: weak_congs; simp)

lemma twice_body: "exec bodyPattern True False twiceHtml = None"
  by (simp only: twiceHtml_def twiceFirst_def twiceSecond_def bodyPattern_def ev cong: weak_congs)

lemma twice_chapters: "execAll chapterPattern True False twiceHtml = []"
  by (simp only: twiceHtml_def twiceFirst_def twiceSecond_def chapterPattern_def tags_def ev
      cong: weak_congs)

lemma twice_strip:
  "stripHtml twiceFirst = twiceFirst"
  "stripHtml twiceSecond = js ''Sec. 1. Short title of this Act.''"
  "stripHtml (js ''Short title.'') = js ''Short title.''"
  "stripHtml (js ''Short title of this Act.'') = js ''Short title of this Act.''"
  by (simp_all only: twiceFirst_def twiceSecond_def strip_ev ev cong: weak_congs)

lemma twice_title_match:
  "exec titlePattern False False (js ''Short title.'')
     = Some (RMatch 0 (js ''Short title.'') [(1, js ''Short title'')])"
  "exec titlePattern False False (js ''Short title of this Act.'')
     = Some (RMatch 0 (js ''Short title of this Act.'') [(1, js ''Short title of this Act'')])"
  by (simp_all only: titlePattern_def ev cong: weak_congs)

lemma twice_title_clean:
  "replaceFirst leadingDash False False [] (js ''Short title'') = js ''Short title''"
  "replaceFirst leadingDash False False [] (js ''Short title of this Act'') = js ''Short title of this Act''"
  "replaceFirst leadingJunk False False [] (js ''Short title'') = js ''Short title''"
  "replaceFirst leadingJunk False False [] (js ''Short title of this Act'') = js ''Short title of this Act''"
  "trim (js ''Short title'') = js ''Short title''"
  "trim (js ''Short title of this Act'') = js ''Short title of this Act''"
  "trim (js ''1'') = js ''1''"
  "takeWhile (\<lambda>c. c \<noteq> 10) (js ''Short title.'') = js ''Short title.''"
  "takeWhile (\<lambda>c. c \<noteq> 10) (js ''Short title of this Act.'') = js ''Short title of this Act.''"
  by (simp_all only: leadingDash_def dashes_def leadingJunk_def takeWhile.simps ev cong: weak_congs)

lemma twice_titles:
  "sectionTitle (js ''Short title.'') = js ''Short title''"
  "sectionTitle (js ''Short title of this Act.'') = js ''Short title of this Act''"
  by (simp_all add: sectionTitle_def Let_def twice_strip twice_title_match twice_title_clean
      grpText_def grp_def)

lemma twice_mentions:
  "\<not> mentionsDefinitions (js ''Short title'')"
  "\<not> mentionsDefinitions (js ''Short title of this Act'')"
  by (simp_all only: mentionsDefinitions_def toLowerCase_def includesStr.simps isPrefixOf.simps ev
      cong: weak_congs)

lemma bare_strip: "stripHtml bareMarker = bareMarker"
  by (simp only: bareMarker_def strip_ev ev cong: weak_congs)


lemma sec1_ref: "js ''sec'' @ toLowerCase (js ''1'') = js ''sec1''"
  by (simp only: toLowerCase_def ev cong: weak_congs)

lemma twice_starts:
  "sectionStarts twiceHtml
     = [\<lparr> start_index = 0, sectionNum = js ''1'', matchLength = 8 \<rparr>,
        \<lparr> start_index = 20, sectionNum = js ''1'', matchLength = 9 \<rparr>]"
  by (simp add: sectionStarts_def twice_sections sectionStartOf_def Let_def grp_def
      twice_title_clean js_length js_empty)

lemma twice_parseSections:
  "parseSections twiceHtml
     = \<lparr> currentChapter = [], provs = [twiceProvision1, twiceProvision2], defs = [] \<rparr>"
proof -
  have b: "bodyHtmlOf twiceHtml = twiceHtml"
    by (simp add: bodyHtmlOf_def twice_body)
  have c: "chapters twiceHtml = []"
    by (simp add: chapters_def twice_chapters)
  have l: "length twiceFirst = 20" "length twiceSecond = 33" "length twiceHtml = 53"
    by (simp_all add: twiceHtml_def twiceFirst_def twiceSecond_def js_length)
  have s1: "substring twiceHtml 0 20 = twiceFirst"
    by (simp add: substring_def twiceHtml_def l)
  have s2: "substring twiceHtml 20 53 = twiceSecond"
    by (simp add: substring_def twiceHtml_def l)
  have a1: "drop 8 twiceFirst = js ''Short title.''"
    by (simp add: twiceFirst_def js_def)
  have a2: "drop 9 twiceSecond = js ''Short title of this Act.''"
    by (simp add: twiceSecond_def js_def)
  have c1: "substring twiceFirst 0 12000 = js ''Sec. 1. Short title.''"
    by (simp add: substring_def twiceFirst_def js_length)
  have c2: "substring (js ''Sec. 1. Short title of this Act.'') 0 12000
              = js ''Sec. 1. Short title of this Act.''"
    by (simp add: substring_def js_length)
  show ?thesis
    unfolding parseSections_def Let_def b c twice_starts
    by (simp add: processSection_def Let_def updateChapter_def l s1 s2 a1 a2 c1 c2 twice_titles
        twice_strip twice_mentions sec1_ref js_length twiceProvision1_def twiceProvision2_def)
qed

lemma index_rows:
  "execAll rowRe True False indexSample
     = [RMatch 0 (js ''<tr><td><a href='' @ [34] @ js ''ra2024/ra_12036_2024.html'' @ [34]
                   @ js ''>Republic Act No. 12036</a><br>October 17, 2024</td><td>An Act</td>'')
          [(6, js ''An Act''), (5, js ''October 17, 2024''), (4, js ''12036''),
           (1, js ''ra2024/ra_12036_2024.html''), (3, js ''2024''), (2, js ''12036'')],
        RMatch 115 (js ''<tr><td><a href='' @ [34] @ js ''ra2023/ra_12036_2023.html'' @ [34]
                   @ js ''>Republic Act No. 12036</a><br>May 5, 2023</td><td>Other</td>'')
          [(6, js ''Other''), (5, js ''May 5, 2023''), (4, js ''12036''),
           (1, js ''ra2023/ra_12036_2023.html''), (3, js ''2023''), (2, js ''12036'')]]"
  by (simp only: indexSample_def indexRow1_def indexRow2_def rowRe_def fourDigits_def ev
      cong: weak_congs; simp)

lemma index_title: "census_stripHtml (js ''An Act'') = js ''An Act''"
  by (simp only: census_stripHtml_def censusStripSteps_def applyStep_def ev cong: weak_congs)

lemma index_date_match:
  "exec datePattern False False (js ''October 17, 2024'')
     = Some (RMatch 0 (js ''October 17, 2024'') [(3, js ''2024''), (2, js ''17''), (1, js ''October'')])"
  by (simp only: datePattern_def ev cong: weak_congs)

lemma index_date_trim: "trim (js ''October 17, 2024'') = js ''October 17, 2024''"
  by (simp only: ev cong: weak_congs)

lemma index_month: "parseMonth (js ''October'') = js ''10''"
  by (simp add: parseMonth_def months_def inheritedKeys_def toLowerCase_def js_def lowerUnit_def
      isUpperAscii_def)

lemma index_date: "parseDate (trim (js ''October 17, 2024'')) = js ''2024-10-17''"
  by (simp add: parseDate_def index_date_trim index_date_match grpText_def grp_def index_month
      padStart2_def js_length)
     (simp add: js_def)

lemma index_numbers:
  "parseInt10 (js ''12036'') = Some 12036"
  "parseInt10 (js ''2024'') = Some 2024"
  "parseInt10 (js ''2023'') = Some 2023"
  by (simp_all add: parseInt10_def js_def isDigit_def)

lemma index_id: "raToId 12036 = js ''ra-12036''"
  by (simp add: raToId_def digitsOf.simps js_def)

section \<open>The parser: the claims\<close>



lemma twice_parse: "provisions (parsePhilippineHtml twiceHtml act) = [twiceProvision2]"
  by (simp add: parsePhilippineHtml_def Let_def twice_parseSections dedupProvisions_def
      keepLonger_def twiceProvision1_def twiceProvision2_def js_length)


text \<open>
  C6 (the scenario of section 3).  There is a document containing the text
  \<open>Section 3. Definition of Terms.\<close>, an em dash,
  \<open>(a) "Personal information" refers to any information...;\<close> for which the parser returns a provision with the reference key
  \<open>sec3\<close> whose heading contains \<open>Definition of Terms\<close>, and a definition with the term
  \<open>Personal information\<close>.  The document is the text itself.
\<close>

lemma includesStr_self: "includesStr t t"
proof -
  have "isPrefixOf t t" by (induction t) simp_all
  then show ?thesis by (cases t) simp_all
qed

theorem scenario_definition_of_terms:
  "\<exists>html. includesStr html sampleHtml
     \<and> (\<exists>p \<in> set (provisions (parsePhilippineHtml html act)).
           provision_ref p = js ''sec3'' \<and> includesStr (prov_title p) (js ''Definition of Terms''))
     \<and> (\<exists>d \<in> set (definitions (parsePhilippineHtml html act)).
           def_term d = js ''Personal information'')"
proof (intro exI[of _ sampleHtml] conjI)
  show "includesStr sampleHtml sampleHtml" by (rule includesStr_self)
  show "\<exists>p \<in> set (provisions (parsePhilippineHtml sampleHtml act)).
           provision_ref p = js ''sec3'' \<and> includesStr (prov_title p) (js ''Definition of Terms'')"
    by (simp add: sample_parse sampleProvision_def includesStr_self)
  show "\<exists>d \<in> set (definitions (parsePhilippineHtml sampleHtml act)).
           def_term d = js ''Personal information''"
    by (simp add: sample_parse sampleDefinition_def)
qed

text \<open>
  C8 (short bodies dropped, long bodies capped).  A candidate section whose stripped
  body has fewer than 10 code units adds no provision, and every provision of a record
  the parser returns has a body of more than 10 and at most 12000 code units.
\<close>

theorem short_dropped_long_capped:
  "(length (stripHtml (substring bodyHtml (start_index start) nextStart)) < 10
      \<longrightarrow> provs (processSection bodyHtml chs start nextStart st) = provs st)
   \<and> (\<forall>p \<in> set (provisions (parsePhilippineHtml html act)).
         10 < length (content p) \<and> length (content p) \<le> 12000)"
proof -
  have "\<forall>p \<in> set (provisions (parsePhilippineHtml html act)). sized p"
    using parseSections_sized[of html] dedupProvisions_subset[of "provs (parseSections html)"]
    by (auto simp: parsePhilippineHtml_def Let_def)
  then show ?thesis by (simp add: processSection_short sized_def)
qed

theorem short_dropped_long_capped_witness:
  "length (stripHtml (substring bareMarker (start_index bareStart) 7)) < 10
   \<and> provs (processSection bareMarker [] bareStart 7 emptyParse) = provs emptyParse
   \<and> sampleProvision \<in> set (provisions (parsePhilippineHtml sampleHtml dataPrivacyAct))
   \<and> 10 < length (content sampleProvision) \<and> length (content sampleProvision) \<le> 12000"
proof -
  have l: "length bareMarker = 7" by (simp add: bareMarker_def js_length)
  have h: "length (stripHtml (substring bareMarker (start_index bareStart) 7)) < 10"
    by (simp add: substring_def bareStart_def l bare_strip)
  have p: "sampleProvision \<in> set (provisions (parsePhilippineHtml sampleHtml dataPrivacyAct))"
    by (simp add: sample_parse)
  show ?thesis
    using h p
      short_dropped_long_capped[of bareMarker bareStart 7 "[]" emptyParse sampleHtml dataPrivacyAct]
    by blast
qed

text \<open>
  C10 (back-references resolve).  In every record the parser returns, the
  \<open>source_provision\<close> of every definition is the reference key of a provision of the
  record.
\<close>

theorem back_references_resolve:
  "\<forall>d \<in> set (definitions (parsePhilippineHtml html act)).
     \<exists>p \<in> set (provisions (parsePhilippineHtml html act)).
       source_provision d = Some (provision_ref p)"
proof
  fix d
  assume "d \<in> set (definitions (parsePhilippineHtml html act))"
  then have "d \<in> set (defs (parseSections html))"
    using dedupDefinitions_subset by (auto simp: parsePhilippineHtml_def Let_def)
  then obtain x where x: "x \<in> set (provs (parseSections html))"
      "source_provision d = Some (provision_ref x)"
    using parseSections_resolved[of html] by (auto simp: resolved_def)
  from dedupProvisions_winner[OF x(1) refl] obtain w where
    w: "filter (\<lambda>p. provision_ref p = provision_ref x) (dedupProvisions (provs (parseSections html))) = [w]"
    by blast
  then have "w \<in> set (filter (\<lambda>p. provision_ref p = provision_ref x)
                         (dedupProvisions (provs (parseSections html))))"
    by simp
  then have "w \<in> set (provisions (parsePhilippineHtml html act))" "provision_ref w = provision_ref x"
    by (simp_all add: parsePhilippineHtml_def Let_def)
  then show "\<exists>p \<in> set (provisions (parsePhilippineHtml html act)).
       source_provision d = Some (provision_ref p)"
    using x(2) by metis
qed

theorem back_references_resolve_witness:
  "sampleDefinition \<in> set (definitions (parsePhilippineHtml sampleHtml dataPrivacyAct))
   \<and> (\<exists>p \<in> set (provisions (parsePhilippineHtml sampleHtml dataPrivacyAct)).
         source_provision sampleDefinition = Some (provision_ref p))"
proof -
  have d: "sampleDefinition \<in> set (definitions (parsePhilippineHtml sampleHtml dataPrivacyAct))"
    by (simp add: sample_parse)
  show ?thesis using d back_references_resolve[of sampleHtml dataPrivacyAct] by blast
qed

section \<open>The census and the pipeline: the claims\<close>

lemma fetch_page:
  "fst (fetchWithRateLimit (serverPage page) u 3 st)
     = Inr \<lparr> status = 200, body = page, contentType = js ''text/html'', url = u \<rparr>"
proof -
  let ?st = "rateLimit (serverPage page) st"
  have "fetchAttempts (serverPage page) u 3 0 ?st
          = (Inr \<lparr> status = 200, body = page, contentType = js ''text/html'', url = u \<rparr>,
             snd (doFetch (serverPage page) u ?st))"
    by (rule fetchAttempts_return) (simp_all add: doFetch_def serverPage_def Let_def)
  then show ?thesis by (simp add: fetchWithRateLimit_def)
qed

lemma index_parse: "parseIndexPage indexSample = [sampleLaw]"
  by (simp add: parseIndexPage_def parseRows_def index_rows indexRow_def grpText_def grp_def
      index_numbers index_id lawOfRow_def index_title index_date sampleLaw_def)
     (simp add: js_def)

lemma index_census: "census_main (serverPage indexSample) net0 = Some (sampleLaw # specialEntries)"
  by (simp add: census_main_def fetch_page index_parse sortWith_def specialEntries_def
      compareLaws_def sampleLaw_def)




lemma dataPrivacyAct_listed: "dataPrivacyAct \<in> set (worklist fullRun)"
  by (simp add: worklist_def fullRun_def dataPrivacyAct_def KEY_PHILIPPINE_ACTS_def)



end
